theory Spec2Isabelle
  imports Complex_Main "HOL-Library.Monad_Syntax" "HOL-Library.AList"
    "HOL-Library.Char_ord" "HOL-Library.List_Lexorder" "HOL-Library.Multiset"
begin

section \<open>JavaScript values and the built-ins the program calls\<close>

text \<open>
  A JavaScript number is a finite value, one of the two infinities, or NaN. A finite
  value is a real (every double is one); the arithmetic of the program rounds its
  results to doubles (see \<open>double_round\<close> below). There is one zero: the sign of
  zero is not modelled.
\<close>

datatype jsnum = NaN | NegInfinity | Finite real | Infinity

text \<open>
  A value of TypeScript's \<^verbatim>\<open>unknown\<close>, as \<^verbatim>\<open>JSON.parse\<close> or a property read can
  produce it. An object is the list of its own enumerable properties in insertion order
  (a property read takes the first entry of a name). Strings are lists of
  code units below 256.
\<close>

datatype jsval =
    JUndefined
  | JNull
  | JBool bool
  | JNum jsnum
  | JStr string
  | JArr "jsval list"
  | JObj "(string \<times> jsval) list"

fun typeof :: "jsval \<Rightarrow> string" where
  "typeof JUndefined = ''undefined''"
| "typeof JNull = ''object''"
| "typeof (JBool b) = ''boolean''"
| "typeof (JNum n) = ''number''"
| "typeof (JStr s) = ''string''"
| "typeof (JArr xs) = ''object''"
| "typeof (JObj kvs) = ''object''"

text \<open>
  A computation that can throw returns an option: \<open>None\<close> is a thrown TypeError.

  \<open>own x k\<close> is what the property read \<^verbatim>\<open>x[k]\<close> gives on a value other than undefined
  and null: on an object the own property or undefined. The names the program reads
  (\<^verbatim>\<open>event\<close>, \<^verbatim>\<open>label\<close>, \<^verbatim>\<open>duration\<close>, ...) are neither array indices nor
  properties of a prototype, so on arrays and primitives the read gives undefined.
  The read itself throws on undefined and null.
\<close>

fun own :: "jsval \<Rightarrow> string \<Rightarrow> jsval" where
  "own (JObj kvs) k = (case map_of kvs k of None \<Rightarrow> JUndefined | Some v \<Rightarrow> v)"
| "own v k = JUndefined"

definition getProp :: "jsval \<Rightarrow> string \<Rightarrow> jsval option" where
  "getProp x k = (if x = JUndefined \<or> x = JNull then None else Some (own x k))"

fun digit_char :: "nat \<Rightarrow> char" where
  "digit_char n = char_of (48 + n)"

fun show_nat :: "nat \<Rightarrow> string" where
  "show_nat n = (if n < 10 then [digit_char n] else show_nat (n div 10) @ [digit_char (n mod 10)])"

declare show_nat.simps [simp del]

text \<open>\<^verbatim>\<open>Object.keys(x)\<close>: throws on undefined and null; the indices of an array or string.\<close>

fun Object_keys :: "jsval \<Rightarrow> string list option" where
  "Object_keys JUndefined = None"
| "Object_keys JNull = None"
| "Object_keys (JObj kvs) = Some (map fst kvs)"
| "Object_keys (JArr xs) = Some (map show_nat [0..<length xs])"
| "Object_keys (JStr s) = Some (map show_nat [0..<length s])"
| "Object_keys (JBool b) = Some []"
| "Object_keys (JNum n) = Some []"

text \<open>White space and line terminators of ECMAScript among the code units below 256.\<close>

definition isWhiteSpace :: "char \<Rightarrow> bool" where
  "isWhiteSpace c = (of_char c \<in> {9, 10, 11, 12, 13, 32, 160 :: nat})"

definition trim :: "string \<Rightarrow> string" where
  "trim s = rev (dropWhile isWhiteSpace (rev (dropWhile isWhiteSpace s)))"

text \<open>The method call \<^verbatim>\<open>value.trim()\<close>: only a string has the method.\<close>

fun String_trim :: "jsval \<Rightarrow> string option" where
  "String_trim (JStr s) = Some (trim s)"
| "String_trim _ = None"

text \<open>\<^verbatim>\<open>value >= 0\<close> and \<^verbatim>\<open>isFinite(value)\<close> on a number.\<close>

fun ge_zero :: "jsnum \<Rightarrow> bool" where
  "ge_zero NaN = False"
| "ge_zero NegInfinity = False"
| "ge_zero (Finite r) = (r \<ge> 0)"
| "ge_zero Infinity = True"

fun isFinite :: "jsnum \<Rightarrow> bool" where
  "isFinite (Finite r) = True"
| "isFinite _ = False"

section \<open>types.ts: the payload validator\<close>

record ValidationResult =
  valid :: bool
  error :: "string option"

definition ok :: ValidationResult where
  "ok = \<lparr>valid = True, error = None\<rparr>"

definition rejected :: "string \<Rightarrow> ValidationResult" where
  "rejected msg = \<lparr>valid = False, error = Some msg\<rparr>"

definition REQUIRED_BASE_FIELDS :: "string list" where
  "REQUIRED_BASE_FIELDS =
     [''name'', ''event'', ''timestamp'', ''started'', ''modelName'', ''modelIdentifier'',
      ''macOSBuild'', ''macOSVersion'', ''serialNumber'', ''setupManagerVersion'']"

definition REQUIRED_FINISHED_FIELDS :: "string list" where
  "REQUIRED_FINISHED_FIELDS = [''duration'', ''finished'']"

definition VALID_EVENTS :: "string list" where
  "VALID_EVENTS = [''com.jamf.setupmanager.started'', ''com.jamf.setupmanager.finished'']"

definition DANGEROUS_KEYS :: "string list" where
  "DANGEROUS_KEYS = [''__proto__'', ''constructor'', ''prototype'']"

definition isNonEmptyString :: "jsval \<Rightarrow> bool option" where
  "isNonEmptyString v =
     (if typeof v = ''string'' then do { t \<leftarrow> String_trim v; Some (length t > 0) }
      else Some False)"

text \<open>
  \<^verbatim>\<open>isValidTimestamp\<close>. The parameter \<open>dateIsNaN v\<close> stands for the built-in
  \<^verbatim>\<open>isNaN(new Date(v).getTime())\<close>, whose parsing of strings depends on the engine.
\<close>

definition isValidTimestamp :: "(jsval \<Rightarrow> bool) \<Rightarrow> jsval \<Rightarrow> bool option" where
  "isValidTimestamp dateIsNaN v =
     do { ne \<leftarrow> isNonEmptyString v;
          if \<not> ne then Some False else Some (\<not> dateIsNaN v) }"

definition isNonNegativeNumber :: "jsval \<Rightarrow> bool" where
  "isNonNegativeNumber v =
     (case v of JNum n \<Rightarrow> ge_zero n \<and> isFinite n | _ \<Rightarrow> False)"

definition hasDangerousKeys :: "jsval \<Rightarrow> bool option" where
  "hasDangerousKeys obj =
     do { keys \<leftarrow> Object_keys obj;
          Some (list_ex (\<lambda>key. key \<in> set DANGEROUS_KEYS) keys) }"

definition isValidEnrollmentAction :: "jsval \<Rightarrow> bool option" where
  "isValidEnrollmentAction action =
     (if typeof action \<noteq> ''object'' \<or> action = JNull then Some False
      else do {
        dangerous \<leftarrow> hasDangerousKeys action;
        if dangerous then Some False
        else do {
          label \<leftarrow> getProp action ''label'';
          ne \<leftarrow> isNonEmptyString label;
          if \<not> ne then Some False
          else do {
            status \<leftarrow> getProp action ''status'';
            Some (status = JStr ''finished'' \<or> status = JStr ''failed'')
          }
        }
      })"

text \<open>
  A loop with a \<^verbatim>\<open>return\<close> in its body gives \<open>Some r\<close> when it returned \<open>r\<close> and
  \<open>None\<close> when it ran to its end; around it, the option of a possible throw.
\<close>

fun optionalStrings_loop ::
  "(string \<Rightarrow> 'r) \<Rightarrow> jsval \<Rightarrow> string list \<Rightarrow> 'r option option" where
  "optionalStrings_loop ret obj [] = Some None"
| "optionalStrings_loop ret obj (field # rest) =
     do { v \<leftarrow> getProp obj field;
          if v \<noteq> JUndefined \<and> typeof v \<noteq> ''string'' then Some (Some (ret field))
          else optionalStrings_loop ret obj rest }"

definition isValidUserEntry :: "jsval \<Rightarrow> bool option" where
  "isValidUserEntry entry =
     (if typeof entry \<noteq> ''object'' \<or> entry = JNull then Some False
      else do {
        dangerous \<leftarrow> hasDangerousKeys entry;
        if dangerous then Some False
        else do {
          r \<leftarrow> optionalStrings_loop (\<lambda>field. False) entry
                 [''department'', ''computerName'', ''userID'', ''assetTag''];
          Some (case r of Some b \<Rightarrow> b | None \<Rightarrow> True)
        }
      })"

fun requiredBaseFields_loop :: "jsval \<Rightarrow> string list \<Rightarrow> ValidationResult option option" where
  "requiredBaseFields_loop obj [] = Some None"
| "requiredBaseFields_loop obj (field # rest) =
     do { v \<leftarrow> getProp obj field;
          ne \<leftarrow> isNonEmptyString v;
          if \<not> ne then Some (Some (rejected (''Missing or invalid required field: '' @ field)))
          else requiredBaseFields_loop obj rest }"

fun requiredFinishedFields_loop :: "jsval \<Rightarrow> string list \<Rightarrow> ValidationResult option option" where
  "requiredFinishedFields_loop obj [] = Some None"
| "requiredFinishedFields_loop obj (field # rest) =
     do { v \<leftarrow> getProp obj field;
          if field = ''duration'' then
            (if \<not> isNonNegativeNumber v
             then Some (Some (rejected ''duration must be a non-negative number''))
             else requiredFinishedFields_loop obj rest)
          else do {
            ne \<leftarrow> isNonEmptyString v;
            if \<not> ne then Some (Some (rejected (''Missing or invalid required field: '' @ field)))
            else requiredFinishedFields_loop obj rest } }"

fun enrollmentActions_loop :: "jsval list \<Rightarrow> nat \<Rightarrow> ValidationResult option option" where
  "enrollmentActions_loop [] i = Some None"
| "enrollmentActions_loop (a # as) i =
     do { good \<leftarrow> isValidEnrollmentAction a;
          if \<not> good
          then Some (Some (rejected (''Invalid enrollment action at index '' @ show_nat i)))
          else enrollmentActions_loop as (Suc i) }"

text \<open>
  The block of \<^verbatim>\<open>validateWebhookPayload\<close> guarded by
  \<^verbatim>\<open>obj.event === 'com.jamf.setupmanager.finished'\<close>: \<open>Some r\<close> when it returns \<open>r\<close>,
  \<open>None\<close> when control falls through to the checks after it.
\<close>

definition finishedChecks :: "(jsval \<Rightarrow> bool) \<Rightarrow> jsval \<Rightarrow> ValidationResult option option" where
  "finishedChecks dateIsNaN obj =
     do {
       req \<leftarrow> requiredFinishedFields_loop obj REQUIRED_FINISHED_FIELDS;
       case req of Some r \<Rightarrow> Some (Some r) | None \<Rightarrow>
       do {
         finished \<leftarrow> getProp obj ''finished'';
         finishedOk \<leftarrow> isValidTimestamp dateIsNaN finished;
         if \<not> finishedOk then Some (Some (rejected ''Invalid finished timestamp format''))
         else do {
           enrollmentActions \<leftarrow> getProp obj ''enrollmentActions'';
           acts \<leftarrow>
             (if enrollmentActions \<noteq> JUndefined then
                (case enrollmentActions of
                   JArr xs \<Rightarrow> enrollmentActions_loop xs 0
                 | _ \<Rightarrow> Some (Some (rejected ''enrollmentActions must be an array'')))
              else Some None);
           case acts of Some r \<Rightarrow> Some (Some r) | None \<Rightarrow>
           do {
             userEntry \<leftarrow> getProp obj ''userEntry'';
             userEntryOk \<leftarrow>
               (if userEntry \<noteq> JUndefined then isValidUserEntry userEntry else Some True);
             if userEntry \<noteq> JUndefined \<and> \<not> userEntryOk
             then Some (Some (rejected ''Invalid userEntry object''))
             else do {
               uploadThroughput \<leftarrow> getProp obj ''uploadThroughput'';
               if uploadThroughput \<noteq> JUndefined \<and> \<not> isNonNegativeNumber uploadThroughput
               then Some (Some (rejected ''uploadThroughput must be a non-negative number''))
               else do {
                 downloadThroughput \<leftarrow> getProp obj ''downloadThroughput'';
                 if downloadThroughput \<noteq> JUndefined \<and> \<not> isNonNegativeNumber downloadThroughput
                 then Some (Some (rejected ''downloadThroughput must be a non-negative number''))
                 else Some None
               }
             }
           }
         }
       }
     }"

definition validateWebhookPayload :: "(jsval \<Rightarrow> bool) \<Rightarrow> jsval \<Rightarrow> ValidationResult option" where
  \<open>validateWebhookPayload dateIsNaN payload =
     (if typeof payload \<noteq> ''object'' \<or> payload = JNull
      then Some (rejected ''Payload must be a non-null object'')
      else do {
        dangerous \<leftarrow> hasDangerousKeys payload;
        if dangerous then Some (rejected ''Payload contains forbidden property names'')
        else do {
          event \<leftarrow> getProp payload ''event'';
          if event \<notin> set (map JStr VALID_EVENTS) then Some (rejected ''Invalid event type'')
          else do {
            base \<leftarrow> requiredBaseFields_loop payload REQUIRED_BASE_FIELDS;
            case base of Some r \<Rightarrow> Some r | None \<Rightarrow>
            do {
              timestamp \<leftarrow> getProp payload ''timestamp'';
              timestampOk \<leftarrow> isValidTimestamp dateIsNaN timestamp;
              if \<not> timestampOk then Some (rejected ''Invalid timestamp format'')
              else do {
                started \<leftarrow> getProp payload ''started'';
                startedOk \<leftarrow> isValidTimestamp dateIsNaN started;
                if \<not> startedOk then Some (rejected ''Invalid started timestamp format'')
                else do {
                  name \<leftarrow> getProp payload ''name'';
                  if event = JStr ''com.jamf.setupmanager.started'' \<and> name \<noteq> JStr ''Started''
                  then Some (rejected ''name must be "Started" for started events'')
                  else if event = JStr ''com.jamf.setupmanager.finished'' \<and> name \<noteq> JStr ''Finished''
                  then Some (rejected ''name must be "Finished" for finished events'')
                  else do {
                    fin \<leftarrow> (if event = JStr ''com.jamf.setupmanager.finished''
                            then finishedChecks dateIsNaN payload else Some None);
                    case fin of Some r \<Rightarrow> Some r | None \<Rightarrow>
                    do {
                      opt \<leftarrow> optionalStrings_loop
                               (\<lambda>field. rejected (field @ '' must be a string if provided''))
                               payload [''jamfProVersion'', ''jssID'', ''computerName''];
                      case opt of Some r \<Rightarrow> Some r | None \<Rightarrow> Some ok
                    }
                  }
                }
              }
            }
          }
        }
      })\<close>

definition isSetupManagerWebhook :: "(jsval \<Rightarrow> bool) \<Rightarrow> jsval \<Rightarrow> bool option" where
  "isSetupManagerWebhook dateIsNaN payload =
     map_option valid (validateWebhookPayload dateIsNaN payload)"


section \<open>More built-ins\<close>

text \<open>
  \<^verbatim>\<open>parseInt(s, 10)\<close>: leading white space is skipped, then an optional sign and the
  longest run of decimal digits are read; \<open>None\<close> is NaN (no digit). What follows the
  digits is ignored. The result is the exact integer.
\<close>

definition isDigit :: "char \<Rightarrow> bool" where
  "isDigit c = (48 \<le> (of_char c :: nat) \<and> (of_char c :: nat) \<le> 57)"

definition digitValue :: "char \<Rightarrow> nat" where
  "digitValue c = of_char c - 48"

definition parseInt :: "string \<Rightarrow> int option" where
  "parseInt s =
     (let s1 = dropWhile isWhiteSpace s;
          negative = (s1 \<noteq> [] \<and> hd s1 = CHR ''-'');
          s2 = (if s1 \<noteq> [] \<and> (hd s1 = CHR ''-'' \<or> hd s1 = CHR ''+'') then tl s1 else s1);
          digits = takeWhile isDigit s2
      in if digits = [] then None
         else Some ((if negative then - 1 else 1) *
                    int (foldl (\<lambda>a c. 10 * a + digitValue c) 0 digits)))"

text \<open>
  Rounding to a double, to nearest and a tie to the even significand: 53 bits of
  significand, exponents from -1022 (below that the doubles are evenly spaced, 2 to
  the -1074 apart), and an infinity where the rounded value is 2 to the 1024 or more.
\<close>

definition round_half_even :: "real \<Rightarrow> int" where
  "round_half_even x =
     (let n = \<lfloor>x\<rfloor>; d = x - of_int n
      in if d < 1 / 2 then n else if d > 1 / 2 then n + 1 else if even n then n else n + 1)"

definition double_round :: "real \<Rightarrow> jsnum" where
  "double_round x =
     (if x = 0 then Finite 0
      else let e = max \<lfloor>log 2 \<bar>x\<bar>\<rfloor> (- 1022);
               ulp = 2 powr (of_int e - 52);
               y = of_int (round_half_even (\<bar>x\<bar> / ulp)) * ulp
           in if y \<ge> 2 powr 1024 then (if x > 0 then Infinity else NegInfinity)
              else Finite (sgn x * y))"

fun is_positive :: "jsnum \<Rightarrow> bool" where
  "is_positive Infinity = True"
| "is_positive (Finite r) = (r > 0)"
| "is_positive _ = False"


text \<open>The operators \<^verbatim>\<open>+\<close>, \<^verbatim>\<open>-\<close>, \<^verbatim>\<open>*\<close> and \<^verbatim>\<open>/\<close> on two numbers.\<close>

fun num_add :: "jsnum \<Rightarrow> jsnum \<Rightarrow> jsnum" where
  "num_add (Finite a) (Finite b) = double_round (a + b)"
| "num_add NaN y = NaN"
| "num_add x NaN = NaN"
| "num_add Infinity NegInfinity = NaN"
| "num_add NegInfinity Infinity = NaN"
| "num_add Infinity y = Infinity"
| "num_add x Infinity = Infinity"
| "num_add NegInfinity y = NegInfinity"
| "num_add x NegInfinity = NegInfinity"


definition num_mul :: "jsnum \<Rightarrow> jsnum \<Rightarrow> jsnum" where
  "num_mul x y =
     (case (x, y) of
        (Finite a, Finite b) \<Rightarrow> double_round (a * b)
      | _ \<Rightarrow> if x = NaN \<or> y = NaN \<or> x = Finite 0 \<or> y = Finite 0 then NaN
             else if is_positive x = is_positive y then Infinity else NegInfinity)"

definition num_div :: "jsnum \<Rightarrow> jsnum \<Rightarrow> jsnum" where
  "num_div x y =
     (case (x, y) of
        (Finite a, Finite b) \<Rightarrow>
          if b = 0 then (if a = 0 then NaN else if a > 0 then Infinity else NegInfinity)
          else double_round (a / b)
      | (Finite a, NaN) \<Rightarrow> NaN
      | (Finite a, _) \<Rightarrow> Finite 0
      | (NaN, _) \<Rightarrow> NaN
      | (_, Finite b) \<Rightarrow> if is_positive x = (b \<ge> 0) then Infinity else NegInfinity
      | _ \<Rightarrow> NaN)"

text \<open>
  \<^verbatim>\<open>Math.round\<close>: the nearest integer, a half towards plus infinity; NaN and the
  infinities are returned as they are.
\<close>

fun Math_round :: "jsnum \<Rightarrow> jsnum" where
  "Math_round (Finite x) = Finite (of_int \<lfloor>x + 1 / 2\<rfloor>)"
| "Math_round n = n"

text \<open>
  Whether a value passes an \<^verbatim>\<open>if\<close> or the left of \<^verbatim>\<open>&&\<close>: all but undefined, null,
  false, 0, NaN and the empty string.
\<close>

fun truthy :: "jsval \<Rightarrow> bool" where
  "truthy JUndefined = False"
| "truthy JNull = False"
| "truthy (JBool b) = b"
| "truthy (JNum n) = (n \<noteq> NaN \<and> n \<noteq> Finite 0)"
| "truthy (JStr s) = (s \<noteq> [])"
| "truthy (JArr xs) = True"
| "truthy (JObj kvs) = True"

text \<open>
  \<^verbatim>\<open>k in x\<close>: a TypeError unless \<open>x\<close> is an object or an array. The names the program
  asks for are not properties of arrays or of a prototype.
\<close>

fun hasProperty :: "string \<Rightarrow> jsval \<Rightarrow> bool option" where
  "hasProperty k (JObj kvs) = Some (k \<in> set (map fst kvs))"
| "hasProperty k (JArr xs) = Some False"
| "hasProperty k v = None"

text \<open>
  \<^verbatim>\<open>filter\<close>, \<^verbatim>\<open>map\<close> and \<^verbatim>\<open>every\<close> of an array with a callback that can throw;
  \<^verbatim>\<open>every\<close> stops at the first element that fails.
\<close>

fun Array_filter :: "('a \<Rightarrow> bool option) \<Rightarrow> 'a list \<Rightarrow> 'a list option" where
  "Array_filter f [] = Some []"
| "Array_filter f (x # xs) =
     do { b \<leftarrow> f x; ys \<leftarrow> Array_filter f xs; Some (if b then x # ys else ys) }"

fun Array_map :: "('a \<Rightarrow> 'b option) \<Rightarrow> 'a list \<Rightarrow> 'b list option" where
  "Array_map f [] = Some []"
| "Array_map f (x # xs) = do { y \<leftarrow> f x; ys \<leftarrow> Array_map f xs; Some (y # ys) }"

fun Array_every :: "('a \<Rightarrow> bool option) \<Rightarrow> 'a list \<Rightarrow> bool option" where
  "Array_every f [] = Some True"
| "Array_every f (x # xs) = do { b \<leftarrow> f x; if b then Array_every f xs else Some False }"

text \<open>
  The size of \<^verbatim>\<open>new Set(values)\<close>: primitives are members by value; every object or
  array that \<^verbatim>\<open>JSON.parse\<close> made is a member of its own.
\<close>

definition isReference :: "jsval \<Rightarrow> bool" where
  "isReference v = (case v of JArr xs \<Rightarrow> True | JObj kvs \<Rightarrow> True | _ \<Rightarrow> False)"

definition Set_size :: "jsval list \<Rightarrow> nat" where
  "Set_size vs =
     length (remdups (filter (\<lambda>v. \<not> isReference v) vs)) + length (filter isReference vs)"

text \<open>\<^verbatim>\<open>Math.max\<close> and \<^verbatim>\<open>Math.min\<close> of two numbers: NaN as soon as one argument is.\<close>

fun Math_max :: "jsnum \<Rightarrow> jsnum \<Rightarrow> jsnum" where
  "Math_max NaN y = NaN"
| "Math_max x NaN = NaN"
| "Math_max Infinity y = Infinity"
| "Math_max x Infinity = Infinity"
| "Math_max NegInfinity y = y"
| "Math_max x NegInfinity = x"
| "Math_max (Finite a) (Finite b) = Finite (max a b)"

fun Math_min :: "jsnum \<Rightarrow> jsnum \<Rightarrow> jsnum" where
  "Math_min NaN y = NaN"
| "Math_min x NaN = NaN"
| "Math_min NegInfinity y = NegInfinity"
| "Math_min x NegInfinity = NegInfinity"
| "Math_min Infinity y = y"
| "Math_min x Infinity = x"
| "Math_min (Finite a) (Finite b) = Finite (min a b)"

text \<open>\<^verbatim>\<open>s.startsWith(p)\<close> and \<^verbatim>\<open>s.includes(p)\<close> on strings.\<close>

definition startsWith :: "string \<Rightarrow> string \<Rightarrow> bool" where
  "startsWith s p = (take (length p) s = p)"

fun includes_str :: "string \<Rightarrow> string \<Rightarrow> bool" where
  "includes_str [] p = (p = [])"
| "includes_str (c # cs) p = (startsWith (c # cs) p \<or> includes_str cs p)"

section \<open>The key-value store\<close>

text \<open>
  The KV namespace, as the list of its entries in the order in which the store lists
  them (by key). Expiry of entries is not modelled.
\<close>

type_synonym KVNamespace = "(string \<times> string) list"

definition kv_list :: "KVNamespace \<Rightarrow> nat \<Rightarrow> string list" where
  "kv_list kv n = map fst (take n kv)"

definition kv_get :: "KVNamespace \<Rightarrow> string \<Rightarrow> string option" where
  "kv_get kv k = map_of kv k"

definition kv_put :: "string \<Rightarrow> string \<Rightarrow> KVNamespace \<Rightarrow> KVNamespace" where
  "kv_put k v kv = insort_key fst (k, v) (filter (\<lambda>e. fst e \<noteq> k) kv)"

section \<open>The runtime\<close>

text \<open>
  What the program takes from its platform:
  \<^item> \<open>dateIsNaN v\<close>: \<^verbatim>\<open>isNaN(new Date(v).getTime())\<close>;
  \<^item> \<open>JSON_parse s\<close>: \<^verbatim>\<open>JSON.parse(s)\<close>, \<open>None\<close> when it throws;
  \<^item> \<open>JSON_stringify v\<close>: \<^verbatim>\<open>JSON.stringify(v)\<close>;
  \<^item> \<open>coerceNumber v\<close>: the number that a string, an array or an object converts to;
  \<^item> \<open>concatPlus a b\<close>: \<^verbatim>\<open>a + b\<close> when an operand is a string, an array or an object;
  \<^item> \<open>toString v\<close>: the string a template literal puts in for \<open>v\<close>;
  \<^item> \<open>Date_now\<close>: \<^verbatim>\<open>Date.now()\<close> at the one place a request reads the clock;
  \<^item> \<open>hmac s\<close>: the HMAC-SHA-256 digest of \<open>s\<close> under the fixed comparison key;
  \<^item> \<open>sendThrows ws m\<close>: whether \<^verbatim>\<open>ws.send(m)\<close> throws.
\<close>

type_synonym WebSocket = nat

record runtime =
  dateIsNaN :: "jsval \<Rightarrow> bool"
  JSON_parse :: "string \<Rightarrow> jsval option"
  JSON_stringify :: "jsval \<Rightarrow> string"
  coerceNumber :: "jsval \<Rightarrow> jsnum"
  concatPlus :: "jsval \<Rightarrow> jsval \<Rightarrow> jsval"
  toString :: "jsval \<Rightarrow> string"
  Date_now :: int
  hmac :: "string \<Rightarrow> string"
  sendThrows :: "WebSocket \<Rightarrow> string \<Rightarrow> bool"

text \<open>The conversion of a value to a number, and the operator \<^verbatim>\<open>+\<close> on two values.\<close>

definition ToNumber :: "runtime \<Rightarrow> jsval \<Rightarrow> jsnum" where
  "ToNumber rt v =
     (case v of
        JUndefined \<Rightarrow> NaN
      | JNull \<Rightarrow> Finite 0
      | JBool b \<Rightarrow> Finite (if b then 1 else 0)
      | JNum n \<Rightarrow> n
      | _ \<Rightarrow> coerceNumber rt v)"

definition isTextual :: "jsval \<Rightarrow> bool" where
  "isTextual v = (case v of JStr s \<Rightarrow> True | JArr xs \<Rightarrow> True | JObj kvs \<Rightarrow> True | _ \<Rightarrow> False)"

definition js_plus :: "runtime \<Rightarrow> jsval \<Rightarrow> jsval \<Rightarrow> jsval" where
  "js_plus rt a b =
     (if isTextual a \<or> isTextual b then concatPlus rt a b
      else JNum (num_add (ToNumber rt a) (ToNumber rt b)))"

section \<open>DashboardRoom.ts: the broadcast hub\<close>

text \<open>
  The room: the sockets the platform holds for it (\<^verbatim>\<open>state.getWebSockets()\<close>) and, for
  observation, the log of every \<^verbatim>\<open>send\<close> call with its message and whether it returned.
\<close>

record DashboardRoom =
  webSockets :: "WebSocket list"
  sendLog :: "(WebSocket \<times> string \<times> bool) list"

record BroadcastResult =
  broadcasted :: bool
  clients :: nat
  success :: nat
  errors :: nat

text \<open>The \<^verbatim>\<open>for (const ws of webSockets)\<close> loop with its \<^verbatim>\<open>try\<close>/\<^verbatim>\<open>catch\<close>.\<close>

fun broadcast_loop ::
  "runtime \<Rightarrow> string \<Rightarrow> WebSocket list \<Rightarrow> nat \<times> nat \<times> (WebSocket \<times> string \<times> bool) list
     \<Rightarrow> nat \<times> nat \<times> (WebSocket \<times> string \<times> bool) list" where
  "broadcast_loop rt message [] acc = acc"
| "broadcast_loop rt message (ws # rest) (successCount, errorCount, sent) =
     (if sendThrows rt ws message
      then broadcast_loop rt message rest (successCount, errorCount + 1, sent @ [(ws, message, False)])
      else broadcast_loop rt message rest (successCount + 1, errorCount, sent @ [(ws, message, True)]))"

text \<open>\<^verbatim>\<open>fetch\<close> on \<^verbatim>\<open>POST /broadcast\<close>.\<close>

definition broadcast :: "runtime \<Rightarrow> string \<Rightarrow> DashboardRoom \<Rightarrow> BroadcastResult \<times> DashboardRoom" where
  "broadcast rt message room =
     (let sockets = webSockets room;
          (successCount, errorCount, sent) = broadcast_loop rt message sockets (0, 0, sendLog room)
      in (\<lparr>broadcasted = True, clients = length sockets,
            success = successCount, errors = errorCount\<rparr>,
          room\<lparr>sendLog := sent\<rparr>))"

text \<open>\<^verbatim>\<open>fetch\<close> on \<^verbatim>\<open>GET /connections\<close>.\<close>

definition connections :: "DashboardRoom \<Rightarrow> nat" where
  "connections room = length (webSockets room)"

text \<open>
  The limit that \<^verbatim>\<open>webSocketMessage\<close> computes for a \<^verbatim>\<open>request-history\<close> message from
  \<^verbatim>\<open>data.limit\<close>.
\<close>

definition MAX_HISTORY :: jsnum where
  "MAX_HISTORY = Finite 200"

definition requestHistoryLimit :: "jsval \<Rightarrow> jsnum" where
  "requestHistoryLimit dataLimit =
     (if typeof dataLimit = ''number''
      then (case dataLimit of JNum n \<Rightarrow> Math_min (Math_max n (Finite 1)) MAX_HISTORY
                            | _ \<Rightarrow> MAX_HISTORY)
      else MAX_HISTORY)"

text \<open>
  The entries read back from the store, as \<^verbatim>\<open>sendHistory\<close>, \<^verbatim>\<open>handleEvents\<close> and
  \<^verbatim>\<open>handleStats\<close> each do it: list up to \<open>n\<close> keys, get and parse each (null for
  a value that is missing, empty or does not parse), and keep what is not null. The
  type assertion \<^verbatim>\<open>as StoredEvent\<close> checks nothing: an entry is whatever value the
  text denotes.
\<close>

definition readEvent :: "runtime \<Rightarrow> KVNamespace \<Rightarrow> string \<Rightarrow> jsval" where
  "readEvent rt kv name =
     (case kv_get kv name of
        None \<Rightarrow> JNull
      | Some data \<Rightarrow>
          if data = [] then JNull
          else (case JSON_parse rt data of None \<Rightarrow> JNull | Some v \<Rightarrow> v))"

definition readEvents :: "runtime \<Rightarrow> KVNamespace \<Rightarrow> nat \<Rightarrow> jsval list" where
  "readEvents rt kv n = filter (\<lambda>e. e \<noteq> JNull) (map (readEvent rt kv) (kv_list kv n))"







section \<open>The worker: webhook, events and stats\<close>

record Request =
  headers :: "(string \<times> string) list"
  searchParams :: "(string \<times> string) list"
  body :: string

text \<open>
  \<^verbatim>\<open>headers.get(name)\<close>: header names match without regard to case, and the values of
  a name that occurs more than once are joined.
\<close>

definition lowerCode :: "char \<Rightarrow> nat" where
  "lowerCode c = (let n = of_char c in if 65 \<le> n \<and> n \<le> 90 then n + 32 else n)"

definition sameHeaderName :: "string \<Rightarrow> string \<Rightarrow> bool" where
  "sameHeaderName a b = (map lowerCode a = map lowerCode b)"

definition headers_get :: "(string \<times> string) list \<Rightarrow> string \<Rightarrow> string option" where
  "headers_get hs name =
     (case filter (\<lambda>h. sameHeaderName (fst h) name) hs of
        [] \<Rightarrow> None
      | h # rest \<Rightarrow> Some (foldl (\<lambda>joined h'. joined @ '', '' @ snd h') (snd h) rest))"

record 'a Response =
  statusCode :: nat
  content :: 'a

record Env =
  WEBHOOKS :: KVNamespace
  WEBHOOK_SECRET :: "string option"
  DASHBOARD_ROOM :: DashboardRoom

definition json :: "'a \<Rightarrow> nat \<Rightarrow> 'a Response" where
  "json d st = \<lparr>statusCode = st, content = d\<rparr>"

definition timingSafeEqual :: "runtime \<Rightarrow> string \<Rightarrow> string \<Rightarrow> bool" where
  "timingSafeEqual rt a b = (hmac rt a = hmac rt b)"

definition MAX_WEBHOOK_PAYLOAD_SIZE :: int where
  "MAX_WEBHOOK_PAYLOAD_SIZE = 8192"

text \<open>\<^verbatim>\<open>x || d\<close> on a string that may be null, and on the result of \<^verbatim>\<open>parseInt\<close>.\<close>

definition orString :: "string option \<Rightarrow> string \<Rightarrow> string" where
  "orString x d = (case x of None \<Rightarrow> d | Some s \<Rightarrow> if s = [] then d else s)"

definition orInt :: "int option \<Rightarrow> int \<Rightarrow> int" where
  "orInt x d = (case x of None \<Rightarrow> d | Some n \<Rightarrow> if n = 0 then d else n)"

text \<open>
  \<^verbatim>\<open>handleWebhook\<close>. The response is its status and the value given to \<^verbatim>\<open>json\<close>; its
  headers are left out. An exception that nothing catches ends the request with
  status 500.
\<close>

definition handleWebhook :: "runtime \<Rightarrow> Request \<Rightarrow> Env \<Rightarrow> jsval Response \<times> Env" where
  "handleWebhook rt request env =
     (let contentLength = parseInt (orString (headers_get (headers request) ''Content-Length'') ''0'') in
      if (case contentLength of None \<Rightarrow> False | Some n \<Rightarrow> n > MAX_WEBHOOK_PAYLOAD_SIZE)
      then (json (JObj [(''error'', JStr ''Payload too large'')]) 413, env)
      else
      let contentType = headers_get (headers request) ''Content-Type'' in
      if (case contentType of None \<Rightarrow> True
           | Some ct \<Rightarrow> ct = [] \<or> \<not> includes_str ct ''application/json'')
      then (json (JObj [(''error'', JStr ''Content-Type must be application/json'')]) 415, env)
      else
      let webhookSecret = WEBHOOK_SECRET env;
          authHeader = headers_get (headers request) ''Authorization'';
          token = (case authHeader of
                     None \<Rightarrow> None
                   | Some h \<Rightarrow> if startsWith h ''Bearer '' then Some (drop 7 h) else None)
      in
      if (case webhookSecret of
            None \<Rightarrow> False
          | Some secret \<Rightarrow> secret \<noteq> [] \<and>
              (case token of None \<Rightarrow> True
                | Some t \<Rightarrow> t = [] \<or> \<not> timingSafeEqual rt t secret))
      then (json (JObj [(''error'', JStr ''Unauthorized'')]) 401, env)
      else
      case JSON_parse rt (body request) of
        None \<Rightarrow> (json (JObj [(''error'', JStr ''Invalid JSON payload'')]) 400, env)
      | Some webhookPayload \<Rightarrow>
      (case validateWebhookPayload (dateIsNaN rt) webhookPayload of
        None \<Rightarrow> (json JUndefined 500, env)
      | Some validation \<Rightarrow>
        if \<not> valid validation
        then (json (JObj [(''error'', JStr ''Invalid webhook payload'')]) 400, env)
        else
        (case (getProp webhookPayload ''event'', getProp webhookPayload ''serialNumber'') of
           (Some ev, Some sn) \<Rightarrow>
             let ts = JNum (Finite (of_int (Date_now rt)));
                 eventId = toString rt ev @ '':'' @ toString rt sn @ '':'' @ toString rt ts;
                 storedEvent = JObj [(''payload'', webhookPayload), (''timestamp'', ts),
                                     (''eventId'', JStr eventId)];
                 kv = kv_put eventId (JSON_stringify rt storedEvent) (WEBHOOKS env);
                 message = JSON_stringify rt
                             (JObj [(''type'', JStr ''setup-manager-event''), (''data'', storedEvent)]);
                 (result, room) = broadcast rt message (DASHBOARD_ROOM env)
             in (json (JObj [(''success'', JBool True), (''eventId'', JStr eventId)]) 200,
                 env\<lparr>WEBHOOKS := kv, DASHBOARD_ROOM := room\<rparr>)
         | _ \<Rightarrow> (json JUndefined 500, env))))"

text \<open>The limit of \<^verbatim>\<open>handleEvents\<close>, from the query parameter \<^verbatim>\<open>limit\<close>.\<close>

definition eventsLimit :: "string option \<Rightarrow> int" where
  "eventsLimit limitParam = min (max (orInt (parseInt (orString limitParam ''100'')) 100) 1) 1000"


record ServerStats =
  total_stat :: nat
  started_stat :: nat
  finished_stat :: nat
  avgDuration :: jsnum
  successRate :: jsnum
  devices :: nat
  lastEventTime :: "jsnum option"

text \<open>The callback \<^verbatim>\<open>(e) => e.payload.event === name\<close>.\<close>

definition eventIs :: "string \<Rightarrow> jsval \<Rightarrow> bool option" where
  "eventIs name e =
     do { p \<leftarrow> getProp e ''payload'';
          ev \<leftarrow> getProp p ''event'';
          Some (ev = JStr name) }"

text \<open>The callback \<^verbatim>\<open>(e) => "duration" in e.payload ? e.payload.duration : 0\<close>.\<close>

definition durationOf :: "jsval \<Rightarrow> jsval option" where
  "durationOf e =
     do { p \<leftarrow> getProp e ''payload'';
          has \<leftarrow> hasProperty ''duration'' p;
          if has then getProp p ''duration'' else Some (JNum (Finite 0)) }"

text \<open>
  The callback that selects the successful enrollments. \<^verbatim>\<open>every\<close> is a method of
  arrays only: on any other value that passes the test the call throws.
\<close>

definition isSuccessfulEnrollment :: "jsval \<Rightarrow> bool option" where
  "isSuccessfulEnrollment e =
     do { p \<leftarrow> getProp e ''payload'';
          has \<leftarrow> hasProperty ''enrollmentActions'' p;
          if \<not> has then Some True
          else do {
            actions \<leftarrow> getProp p ''enrollmentActions'';
            if \<not> truthy actions then Some True
            else (case actions of
                    JArr xs \<Rightarrow>
                      Array_every (\<lambda>a. do { s \<leftarrow> getProp a ''status'';
                                            Some (s = JStr ''finished'') }) xs
                  | _ \<Rightarrow> None)
          } }"

text \<open>
  \<^verbatim>\<open>handleStats\<close>; \<open>None\<close> is a thrown TypeError, which the function does not catch.
  \<^verbatim>\<open>Math.max\<close> of the spread timestamps converts each to a number.
\<close>

definition handleStats :: "runtime \<Rightarrow> Env \<Rightarrow> ServerStats Response option" where
  "handleStats rt env =
     (let validEvents = readEvents rt (WEBHOOKS env) 1000 in
      do {
        startedEvents \<leftarrow> Array_filter (eventIs ''com.jamf.setupmanager.started'') validEvents;
        finishedEvents \<leftarrow> Array_filter (eventIs ''com.jamf.setupmanager.finished'') validEvents;
        serials \<leftarrow> Array_map (\<lambda>e. do { p \<leftarrow> getProp e ''payload'';
                                         getProp p ''serialNumber'' }) validEvents;
        timestamps \<leftarrow> Array_map (\<lambda>e. getProp e ''timestamp'') validEvents;
        let stats = \<lparr>total_stat = length validEvents,
                     started_stat = length startedEvents,
                     finished_stat = length finishedEvents,
                     avgDuration = Finite 0,
                     successRate = Finite 0,
                     devices = Set_size serials,
                     lastEventTime =
                       (if length validEvents > 0
                        then Some (foldl Math_max NegInfinity (map (ToNumber rt) timestamps))
                        else None)\<rparr>;
        if length finishedEvents > 0
        then do {
          durations \<leftarrow> Array_map durationOf finishedEvents;
          successfulEnrollments \<leftarrow> Array_filter isSuccessfulEnrollment finishedEvents;
          Some (json
                 (stats\<lparr>avgDuration :=
                          Math_round
                            (num_div (ToNumber rt (foldl (js_plus rt) (JNum (Finite 0)) durations))
                               (Finite (real (length durations)))),
                        successRate :=
                          Math_round
                            (num_mul
                               (num_div (Finite (real (length successfulEnrollments)))
                                  (Finite (real (length finishedEvents))))
                               (Finite 100))\<rparr>)
                 200)
        }
        else Some (json stats 200)
      })"

section \<open>useWebSocket.ts: the reconnect loop of the viewer\<close>

definition maxReconnectAttempts :: nat where
  "maxReconnectAttempts = 10"

text \<open>
  \<^verbatim>\<open>ws.onclose\<close> on the counter \<^verbatim>\<open>reconnectAttempts\<close>: the new counter and the delay in
  milliseconds after which \<^verbatim>\<open>connect\<close> is scheduled, if it is.
\<close>

definition onclose :: "nat \<Rightarrow> nat \<times> nat option" where
  "onclose reconnectAttempts =
     (if reconnectAttempts < maxReconnectAttempts
      then (reconnectAttempts + 1, Some (min (1000 * 2 ^ reconnectAttempts) 30000))
      else (reconnectAttempts, None))"

text \<open>\<^verbatim>\<open>ws.onopen\<close> resets the counter.\<close>

definition onopen :: "nat \<Rightarrow> nat" where
  "onopen reconnectAttempts = 0"

text \<open>
  The delays that \<open>k\<close> closes in a row schedule, with no open in between (each
  scheduled connection fails).
\<close>

fun consecutiveCloses :: "nat \<Rightarrow> nat \<Rightarrow> nat option list" where
  "consecutiveCloses 0 reconnectAttempts = []"
| "consecutiveCloses (Suc k) reconnectAttempts =
     (case onclose reconnectAttempts of (n, delay) \<Rightarrow> delay # consecutiveCloses k n)"

text \<open>
  The socket of the viewer opens and closes; the delays that a sequence of such
  events schedules.
\<close>

datatype SocketEvent = Opened | Closed

fun reconnectDelays :: "SocketEvent list \<Rightarrow> nat \<Rightarrow> nat option list" where
  "reconnectDelays [] reconnectAttempts = []"
| "reconnectDelays (Opened # evs) reconnectAttempts =
     reconnectDelays evs (onopen reconnectAttempts)"
| "reconnectDelays (Closed # evs) reconnectAttempts =
     (case onclose reconnectAttempts of (n, delay) \<Rightarrow> delay # reconnectDelays evs n)"


section \<open>Notions used in the proofs, and example data\<close>

text \<open>A value that passes \<^verbatim>\<open>typeof v === 'object' && v !== null\<close>: an object or an array.\<close>

definition isObject :: "jsval \<Rightarrow> bool" where
  "isObject v = (typeof v = ''object'' \<and> v \<noteq> JNull)"

text \<open>A loop or block of the validator either falls through or returns a rejection.\<close>

definition returns_rejection :: "ValidationResult option option \<Rightarrow> bool" where
  "returns_rejection x = (x = Some None \<or> (\<exists>msg. x = Some (Some (rejected msg))))"

text \<open>An engine that parses one date string.\<close>

definition exampleDateIsNaN :: "jsval \<Rightarrow> bool" where
  "exampleDateIsNaN v = (v \<noteq> JStr ''2024-01-15T10:30:00Z'')"

definition startedPayload :: "(string \<times> jsval) list" where
  "startedPayload =
     [(''name'', JStr ''Started''),
      (''event'', JStr ''com.jamf.setupmanager.started''),
      (''timestamp'', JStr ''2024-01-15T10:30:00Z''),
      (''started'', JStr ''2024-01-15T10:30:00Z''),
      (''modelName'', JStr ''MacBook Air''),
      (''modelIdentifier'', JStr ''Mac14,2''),
      (''macOSBuild'', JStr ''24C101''),
      (''macOSVersion'', JStr ''15.2.0''),
      (''serialNumber'', JStr ''TEST001''),
      (''setupManagerVersion'', JStr ''1.1'')]"

definition finishedPayload :: "(string \<times> jsval) list" where
  "finishedPayload =
     [(''name'', JStr ''Finished''),
      (''event'', JStr ''com.jamf.setupmanager.finished''),
      (''timestamp'', JStr ''2024-01-15T10:30:00Z''),
      (''started'', JStr ''2024-01-15T10:30:00Z''),
      (''modelName'', JStr ''MacBook Air''),
      (''modelIdentifier'', JStr ''Mac14,2''),
      (''macOSBuild'', JStr ''24C101''),
      (''macOSVersion'', JStr ''15.2.0''),
      (''serialNumber'', JStr ''TEST001''),
      (''setupManagerVersion'', JStr ''1.1''),
      (''finished'', JStr ''2024-01-15T10:30:00Z'')]"


definition hasIntegerTimestamp :: "jsval \<Rightarrow> bool" where
  "hasIntegerTimestamp e =
     (case own e ''timestamp'' of JNum (Finite r) \<Rightarrow> r = of_int \<lfloor>r\<rfloor> | _ \<Rightarrow> False)"

definition isFinishedEntry :: "jsval \<Rightarrow> bool" where
  "isFinishedEntry e = (own (own e ''payload'') ''event'' = JStr ''com.jamf.setupmanager.finished'')"

definition allActionsFinished :: "jsval \<Rightarrow> bool" where
  "allActionsFinished e =
     (case own (own e ''payload'') ''enrollmentActions'' of
        JArr actions \<Rightarrow> list_all (\<lambda>a. own a ''status'' = JStr ''finished'') actions
      | _ \<Rightarrow> True)"

definition hasNoActions :: "jsval \<Rightarrow> bool" where
  "hasNoActions e =
     (own (own e ''payload'') ''enrollmentActions'' = JUndefined
      \<or> own (own e ''payload'') ''enrollmentActions'' = JNull
      \<or> own (own e ''payload'') ''enrollmentActions'' = JArr [])"

text \<open>
  An entry on which the statistics do not throw: its payload is an object and, when it
  is a finished event, its enrollment actions are absent, a value that fails the test
  (null, false, 0, the empty string), or an array without null.
\<close>

definition isEventShaped :: "jsval \<Rightarrow> bool" where
  "isEventShaped e =
     (case own e ''payload'' of
        JObj kvs \<Rightarrow>
          own (JObj kvs) ''event'' = JStr ''com.jamf.setupmanager.finished'' \<longrightarrow>
          (case own (JObj kvs) ''enrollmentActions'' of
             JArr actions \<Rightarrow> list_all (\<lambda>a. a \<noteq> JUndefined \<and> a \<noteq> JNull) actions
           | v \<Rightarrow> \<not> truthy v)
      | _ \<Rightarrow> False)"

text \<open>
  Four stored events with the text that the store holds for each, and a store that
  holds them next to an entry that does not parse.
\<close>

definition exampleEvent1 :: jsval where
  "exampleEvent1 =
     JObj [(''payload'',
            JObj [(''event'', JStr ''com.jamf.setupmanager.finished''),
                  (''serialNumber'', JStr ''A''),
                  (''duration'', JNum (Finite 120)),
                  (''enrollmentActions'',
                   JArr [JObj [(''label'', JStr ''Dropbox''), (''status'', JStr ''finished'')]])]),
           (''timestamp'', JNum (Finite 1000)),
           (''eventId'', JStr ''com.jamf.setupmanager.finished:A:1000'')]"

definition exampleText1 :: string where
  \<open>exampleText1 =
     ''{"payload":{"event":"com.jamf.setupmanager.finished","serialNumber":"A",'' @
     ''"duration":120,"enrollmentActions":[{"label":"Dropbox","status":"finished"}]},'' @
     ''"timestamp":1000,"eventId":"com.jamf.setupmanager.finished:A:1000"}''\<close>

definition exampleEvent2 :: jsval where
  "exampleEvent2 =
     JObj [(''payload'',
            JObj [(''event'', JStr ''com.jamf.setupmanager.finished''),
                  (''serialNumber'', JStr ''B''),
                  (''duration'', JNum (Finite 60)),
                  (''enrollmentActions'',
                   JArr [JObj [(''label'', JStr ''A''), (''status'', JStr ''finished'')],
                         JObj [(''label'', JStr ''B''), (''status'', JStr ''failed'')]])]),
           (''timestamp'', JNum (Finite 3000)),
           (''eventId'', JStr ''com.jamf.setupmanager.finished:B:3000'')]"

definition exampleText2 :: string where
  \<open>exampleText2 =
     ''{"payload":{"event":"com.jamf.setupmanager.finished","serialNumber":"B",'' @
     ''"duration":60,"enrollmentActions":[{"label":"A","status":"finished"},'' @
     ''{"label":"B","status":"failed"}]},'' @
     ''"timestamp":3000,"eventId":"com.jamf.setupmanager.finished:B:3000"}''\<close>

definition exampleEvent3 :: jsval where
  "exampleEvent3 =
     JObj [(''payload'',
            JObj [(''event'', JStr ''com.jamf.setupmanager.started''),
                  (''serialNumber'', JStr ''A'')]),
           (''timestamp'', JNum (Finite 2000)),
           (''eventId'', JStr ''com.jamf.setupmanager.started:A:2000'')]"

definition exampleText3 :: string where
  \<open>exampleText3 =
     ''{"payload":{"event":"com.jamf.setupmanager.started","serialNumber":"A"},'' @
     ''"timestamp":2000,"eventId":"com.jamf.setupmanager.started:A:2000"}''\<close>

definition exampleEvent4 :: jsval where
  "exampleEvent4 =
     JObj [(''payload'',
            JObj [(''event'', JStr ''com.jamf.setupmanager.finished''),
                  (''serialNumber'', JStr ''C''),
                  (''duration'', JNum (Finite 30))]),
           (''timestamp'', JNum (Finite 500)),
           (''eventId'', JStr ''com.jamf.setupmanager.finished:C:500'')]"

definition exampleText4 :: string where
  \<open>exampleText4 =
     ''{"payload":{"event":"com.jamf.setupmanager.finished","serialNumber":"C",'' @
     ''"duration":30},'' @
     ''"timestamp":500,"eventId":"com.jamf.setupmanager.finished:C:500"}''\<close>

definition exampleStore :: KVNamespace where
  "exampleStore =
     [(''com.jamf.setupmanager.finished:A:1000'', exampleText1),
      (''com.jamf.setupmanager.finished:B:3000'', exampleText2),
      (''com.jamf.setupmanager.finished:C:500'', exampleText4),
      (''com.jamf.setupmanager.finished:D:700'', ''{truncated''),
      (''com.jamf.setupmanager.started:A:2000'', exampleText3)]"


text \<open>
  A request body of more than 8192 bytes: the JSON text of a started event, followed by
  white space.
\<close>

definition oversizedBody :: string where
  \<open>oversizedBody =
     ''{"name":"Started","event":"com.jamf.setupmanager.started",'' @
     ''"timestamp":"2024-01-15T10:30:00Z","started":"2024-01-15T10:30:00Z",'' @
     ''"modelName":"MacBook Air","modelIdentifier":"Mac14,2","macOSBuild":"24C101",'' @
     ''"macOSVersion":"15.2.0","serialNumber":"TEST001","setupManagerVersion":"1.1"}'' @
     replicate 8192 (CHR '' '')\<close>

fun exampleStringify :: "jsval \<Rightarrow> string" where
  "exampleStringify JUndefined = ''undefined''"
| "exampleStringify JNull = ''null''"
| "exampleStringify (JBool b) = (if b then ''true'' else ''false'')"
| "exampleStringify (JNum n) = (case n of Finite r \<Rightarrow> show_nat (nat \<lfloor>r\<rfloor>) | _ \<Rightarrow> ''null'')"
| "exampleStringify (JStr s) = [CHR 0x22] @ s @ [CHR 0x22]"
| "exampleStringify (JArr xs) = ''['' @ concat (map (\<lambda>x. exampleStringify x @ '','') xs) @ '']''"
| "exampleStringify (JObj kvs) =
     ''{'' @ concat (map (\<lambda>kv. [CHR 0x22] @ fst kv @ [CHR 0x22] @ '':'' @
                              exampleStringify (snd kv) @ '','') kvs) @ ''}''"

declare exampleStringify.simps [simp del]

definition exampleToString :: "jsval \<Rightarrow> string" where
  "exampleToString v =
     (case v of JStr s \<Rightarrow> s | JNum (Finite r) \<Rightarrow> show_nat (nat \<lfloor>r\<rfloor>) | _ \<Rightarrow> ''undefined'')"

text \<open>
  A runtime for the examples: it parses the texts above, reads the clock at
  1700000000000, and the socket 2 is broken.
\<close>

definition exampleParse :: "string \<Rightarrow> jsval option" where
  "exampleParse s =
     (if s = oversizedBody then Some (JObj startedPayload)
      else if s = ''5'' then Some (JNum (Finite 5))
      else if s = exampleText1 then Some exampleEvent1
      else if s = exampleText2 then Some exampleEvent2
      else if s = exampleText3 then Some exampleEvent3
      else if s = exampleText4 then Some exampleEvent4
      else None)"

definition exampleCoerceNumber :: "jsval \<Rightarrow> jsnum" where
  "exampleCoerceNumber v = (if v = JStr [] \<or> v = JArr [] then Finite 0 else NaN)"

definition exampleRuntime :: runtime where
  "exampleRuntime =
     \<lparr>dateIsNaN = exampleDateIsNaN,
      JSON_parse = exampleParse,
      JSON_stringify = exampleStringify,
      coerceNumber = exampleCoerceNumber,
      concatPlus = (\<lambda>a b. JStr (exampleToString a @ exampleToString b)),
      toString = exampleToString,
      Date_now = 1700000000000,
      hmac = (\<lambda>s. s),
      sendThrows = (\<lambda>ws m. ws = 2)\<rparr>"

definition exampleEnv :: Env where
  "exampleEnv =
     \<lparr>WEBHOOKS = exampleStore, WEBHOOK_SECRET = None,
      DASHBOARD_ROOM = \<lparr>webSockets = [1, 2, 3], sendLog = []\<rparr>\<rparr>"

definition emptyEnv :: Env where
  "emptyEnv =
     \<lparr>WEBHOOKS = [], WEBHOOK_SECRET = None,
      DASHBOARD_ROOM = \<lparr>webSockets = [1, 2, 3], sendLog = []\<rparr>\<rparr>"

definition oversizedRequest :: Request where
  "oversizedRequest =
     \<lparr>headers = [(''Content-Type'', ''application/json'')], searchParams = [],
      body = oversizedBody\<rparr>"

text \<open>A character that \<open>show_nat\<close> writes: a decimal digit.\<close>

definition isDigitChar :: "char \<Rightarrow> bool" where
  "isDigitChar c = (\<exists>n<10. c = digit_char n)"

lemma isObject_cases: "isObject v \<longleftrightarrow> (\<exists>xs. v = JArr xs) \<or> (\<exists>kvs. v = JObj kvs)"
  by (cases v) (auto simp: isObject_def)

lemma getProp_object: "isObject v \<Longrightarrow> getProp v k = Some (own v k)"
  by (auto simp: isObject_cases getProp_def)

lemma hasDangerousKeys_object: "isObject v \<Longrightarrow> \<exists>b. hasDangerousKeys v = Some b"
  by (auto simp: isObject_cases hasDangerousKeys_def)

lemma isNonEmptyString_total: "\<exists>b. isNonEmptyString v = Some b"
  by (cases v) (auto simp: isNonEmptyString_def)

lemma isValidTimestamp_total: "\<exists>b. isValidTimestamp d v = Some b"
  using isNonEmptyString_total [of v] by (auto simp: isValidTimestamp_def)

lemma isValidEnrollmentAction_total: "\<exists>b. isValidEnrollmentAction a = Some b"
proof (cases "isObject a")
  case False
  then show ?thesis by (auto simp: isValidEnrollmentAction_def isObject_def)
next
  case True
  obtain dk where dk: "hasDangerousKeys a = Some dk"
    using hasDangerousKeys_object [OF True] by blast
  obtain ne where ne: "isNonEmptyString (own a ''label'') = Some ne"
    using isNonEmptyString_total by blast
  show ?thesis
    by (auto simp add: isValidEnrollmentAction_def getProp_object [OF True] dk ne)
qed

lemma valid_rejected [simp]: "\<not> valid (rejected m)" by (simp add: rejected_def)
lemma valid_ok [simp]: "valid ok" by (simp add: ok_def)

lemma ex_rejected [simp]: "\<exists>m. rejected x = rejected m"
  by blast

lemma returns_rejection_simps [simp]:
  "returns_rejection (Some None)" "returns_rejection (Some (Some (rejected m)))"
  by (auto simp: returns_rejection_def)

lemma returns_rejectionE:
  assumes "returns_rejection x"
  obtains "x = Some None" | m where "x = Some (Some (rejected m))"
  using assms unfolding returns_rejection_def by blast

lemma optionalStrings_loop_total:
  "isObject obj \<Longrightarrow> \<exists>y. optionalStrings_loop ret obj fs = Some y"
  by (induction fs) (auto simp: getProp_object)

lemma optionalStrings_loop_returns:
  "isObject obj \<Longrightarrow> returns_rejection (optionalStrings_loop (\<lambda>f. rejected (g f)) obj fs)"
  by (induction fs) (auto simp: getProp_object returns_rejection_def)

lemma isValidUserEntry_total: "\<exists>b. isValidUserEntry e = Some b"
proof (cases "isObject e")
  case False
  then show ?thesis by (auto simp: isValidUserEntry_def isObject_def)
next
  case True
  obtain dk where dk: "hasDangerousKeys e = Some dk"
    using hasDangerousKeys_object [OF True] by blast
  obtain y where y: "optionalStrings_loop (\<lambda>field. False) e
                 [''department'', ''computerName'', ''userID'', ''assetTag''] = Some y"
    using optionalStrings_loop_total [OF True] by blast
  show ?thesis
    using True by (auto simp add: isValidUserEntry_def dk y isObject_def simp del: optionalStrings_loop.simps)
qed

lemma requiredBaseFields_loop_returns:
  "isObject obj \<Longrightarrow> returns_rejection (requiredBaseFields_loop obj fs)"
proof (induction fs)
  case Nil
  then show ?case by (simp add: returns_rejection_def)
next
  case (Cons f fs)
  obtain ne where ne: "isNonEmptyString (own obj f) = Some ne"
    using isNonEmptyString_total by blast
  show ?case using Cons by (cases ne) (simp_all add: getProp_object ne)
qed

lemma requiredFinishedFields_loop_returns:
  "isObject obj \<Longrightarrow> returns_rejection (requiredFinishedFields_loop obj fs)"
proof (induction fs)
  case Nil
  then show ?case by (simp add: returns_rejection_def)
next
  case (Cons f fs)
  obtain ne where ne: "isNonEmptyString (own obj f) = Some ne"
    using isNonEmptyString_total by blast
  have "returns_rejection (Some (Some (rejected m)))" for m
    by (auto simp: returns_rejection_def)
  then show ?case using Cons by (cases ne) (simp_all add: getProp_object ne)
qed

lemma enrollmentActions_loop_returns: "returns_rejection (enrollmentActions_loop xs i)"
proof (induction xs arbitrary: i)
  case Nil
  then show ?case by (simp add: returns_rejection_def)
next
  case (Cons a as)
  obtain b where b: "isValidEnrollmentAction a = Some b"
    using isValidEnrollmentAction_total by blast
  have "returns_rejection (Some (Some (rejected m)))" for m
    by (auto simp: returns_rejection_def)
  then show ?case using Cons [of "Suc i"] by (cases b) (simp_all add: b)
qed

text \<open>The part of the finished block that validates \<^verbatim>\<open>enrollmentActions\<close>.\<close>

lemma enrollmentActions_part_returns:
  "returns_rejection (if ea \<noteq> JUndefined then
                (case ea of
                   JArr xs \<Rightarrow> enrollmentActions_loop xs 0
                 | _ \<Rightarrow> Some (Some (rejected ''enrollmentActions must be an array'')))
              else Some None)"
  by (cases ea) (simp_all add: enrollmentActions_loop_returns)

lemma finishedChecks_returns:
  assumes obj: "isObject obj"
  shows "returns_rejection (finishedChecks d obj)"
proof -
  obtain fo where fo: "isValidTimestamp d (own obj ''finished'') = Some fo"
    using isValidTimestamp_total by blast
  obtain ue where ue: "isValidUserEntry (own obj ''userEntry'') = Some ue"
    using isValidUserEntry_total by blast
  have rr: "returns_rejection (Some (Some (rejected m)))" "returns_rejection (Some None)" for m
    by (auto simp: returns_rejection_def)
  show ?thesis
    using requiredFinishedFields_loop_returns [OF obj, of REQUIRED_FINISHED_FIELDS]
  proof (cases rule: returns_rejectionE)
    case (2 m)
    then show ?thesis by (simp add: finishedChecks_def rr)
  next
    case req: 1
    from enrollmentActions_part_returns [of "own obj ''enrollmentActions''"] show ?thesis
    proof (cases rule: returns_rejectionE)
      case (2 m)
      then show ?thesis
        by (simp add: finishedChecks_def req getProp_object [OF obj] fo rr)
    next
      case 1
      then show ?thesis
        by (simp add: finishedChecks_def req getProp_object [OF obj] fo ue rr)
    qed
  qed
qed

lemma validate_not_object:
  "\<not> isObject p \<Longrightarrow> \<exists>m. validateWebhookPayload d p = Some (rejected m)"
  by (auto simp: validateWebhookPayload_def isObject_def)

text \<open>The result of the validator on an object, check by check.\<close>

lemma validate_object:
  assumes obj: "isObject p"
  obtains m where "validateWebhookPayload d p = Some (rejected m)"
  | "validateWebhookPayload d p = Some ok" and "hasDangerousKeys p = Some False"
    and "own p ''event'' = JStr ''com.jamf.setupmanager.finished'' \<Longrightarrow> finishedChecks d p = Some None"
proof -
  note C = that
  obtain dk where dk: "hasDangerousKeys p = Some dk"
    using hasDangerousKeys_object [OF obj] by blast
  obtain t where t: "isValidTimestamp d (own p ''timestamp'') = Some t"
    using isValidTimestamp_total by blast
  obtain s where s: "isValidTimestamp d (own p ''started'') = Some s"
    using isValidTimestamp_total by blast
  have o: "typeof p = ''object''" "p \<noteq> JNull" using obj by (auto simp: isObject_def)
  note defs = validateWebhookPayload_def getProp_object [OF obj] o
  let ?fin = "if own p ''event'' = JStr ''com.jamf.setupmanager.finished''
                            then finishedChecks d p else Some None"
  let ?opt = "optionalStrings_loop
                               (\<lambda>field. rejected (field @ '' must be a string if provided''))
                               p [''jamfProVersion'', ''jssID'', ''computerName'']"
  have fin: "returns_rejection ?fin"
    using finishedChecks_returns [OF obj] by simp
  have opt: "returns_rejection ?opt"
    by (rule optionalStrings_loop_returns [OF obj])
  have base: "returns_rejection (requiredBaseFields_loop p REQUIRED_BASE_FIELDS)"
    by (rule requiredBaseFields_loop_returns [OF obj])
  have rej: thesis if "\<exists>m. validateWebhookPayload d p = Some (rejected m)"
    using that C(1) by blast
  show ?thesis
  proof (cases dk)
    case True
    with dk show ?thesis by (intro rej) (simp add: defs)
  next
    case False
    with dk have dk: "hasDangerousKeys p = Some False" by simp
    show ?thesis
    proof (cases "own p ''event'' \<in> set (map JStr VALID_EVENTS)")
      case False
      then show ?thesis by (intro rej) (simp add: defs dk)
    next
      case ev: True
      from base show ?thesis
      proof (cases rule: returns_rejectionE)
        case (2 m)
        with ev show ?thesis by (intro rej) (simp add: defs dk)
      next
        case b: 1
        show ?thesis
        proof (cases t)
          case False
          with t ev show ?thesis by (intro rej) (simp add: defs dk b)
        next
          case True
          with t have t: "isValidTimestamp d (own p ''timestamp'') = Some True" by simp
          show ?thesis
          proof (cases s)
            case False
            with s ev show ?thesis by (intro rej) (simp add: defs dk b t)
          next
            case True
            with s have s: "isValidTimestamp d (own p ''started'') = Some True" by simp
            show ?thesis
            proof (cases "own p ''event'' = JStr ''com.jamf.setupmanager.started'' \<and> own p ''name'' \<noteq> JStr ''Started''")
              case True
              with ev show ?thesis by (intro rej) (simp add: defs dk b t s)
            next
              case n1: False
              show ?thesis
              proof (cases "own p ''event'' = JStr ''com.jamf.setupmanager.finished'' \<and> own p ''name'' \<noteq> JStr ''Finished''")
                case True
                with ev show ?thesis by (intro rej) (simp add: defs dk b t s)
              next
                case n2: False
                have pre: "validateWebhookPayload d p =
                    ?fin \<bind> (\<lambda>fin. case fin of Some r \<Rightarrow> Some r | None \<Rightarrow>
                       ?opt \<bind> (\<lambda>opt. case opt of Some r \<Rightarrow> Some r | None \<Rightarrow> Some ok))"
                proof -
                  from ev n1 n2 consider
                      "own p ''event'' = JStr ''com.jamf.setupmanager.started''" "own p ''name'' = JStr ''Started''"
                    | "own p ''event'' = JStr ''com.jamf.setupmanager.finished''" "own p ''name'' = JStr ''Finished''"
                    by (auto simp: VALID_EVENTS_def)
                  then show ?thesis
                    by cases (simp_all add: defs dk b t s VALID_EVENTS_def del: optionalStrings_loop.simps)
                qed
                from fin show ?thesis
                proof (cases rule: returns_rejectionE)
                  case (2 m)
                  then show ?thesis by (intro rej) (simp only: pre bind.simps option.case, blast)
                next
                  case f: 1
                  from opt show ?thesis
                  proof (cases rule: returns_rejectionE)
                    case (2 m)
                    then show ?thesis by (intro rej) (simp only: pre f bind.simps option.case, blast)
                  next
                    case 1
                    then have "validateWebhookPayload d p = Some ok"
                      by (simp only: pre f bind.simps option.case)
                    moreover have "finishedChecks d p = Some None"
                      if "own p ''event'' = JStr ''com.jamf.setupmanager.finished''"
                      using f that by simp
                    ultimately show ?thesis using C(2) dk by blast
                  qed
                qed
              qed
            qed
          qed
        qed
      qed
    qed
  qed
qed

lemma validate_total:
  "validateWebhookPayload d p = Some ok \<or> (\<exists>m. validateWebhookPayload d p = Some (rejected m))"
proof (cases "isObject p")
  case False
  then show ?thesis using validate_not_object by blast
next
  case True
  then show ?thesis
  proof (rule validate_object)
    fix m assume "validateWebhookPayload d p = Some (rejected m)"
    then show ?thesis by blast
  next
    assume "validateWebhookPayload d p = Some ok"
    then show ?thesis by simp
  qed
qed


lemma hasDangerousKeys_JObj:
  "hasDangerousKeys (JObj kvs) = Some (\<exists>k \<in> fst ` set kvs. k \<in> set DANGEROUS_KEYS)"
  by (simp add: hasDangerousKeys_def list_ex_iff)

lemma isValidEnrollmentAction_TrueD:
  assumes "isValidEnrollmentAction a = Some True"
  shows "hasDangerousKeys a = Some False"
proof -
  have obj: "isObject a"
    using assms by (auto simp: isValidEnrollmentAction_def isObject_def split: if_splits)
  obtain dk where dk: "hasDangerousKeys a = Some dk"
    using hasDangerousKeys_object [OF obj] by blast
  show ?thesis
    using assms obj by (cases dk) (simp_all add: isValidEnrollmentAction_def isObject_def dk)
qed

lemma isValidUserEntry_TrueD:
  assumes "isValidUserEntry e = Some True"
  shows "hasDangerousKeys e = Some False"
proof -
  have obj: "isObject e"
    using assms by (auto simp: isValidUserEntry_def isObject_def split: if_splits)
  obtain dk where dk: "hasDangerousKeys e = Some dk"
    using hasDangerousKeys_object [OF obj] by blast
  show ?thesis
    using assms obj by (cases dk) (simp_all add: isValidUserEntry_def isObject_def dk)
qed

lemma enrollmentActions_loop_NoneD:
  "enrollmentActions_loop xs i = Some None \<Longrightarrow> a \<in> set xs \<Longrightarrow> isValidEnrollmentAction a = Some True"
proof (induction xs arbitrary: i)
  case Nil
  then show ?case by simp
next
  case (Cons x xs)
  obtain b where b: "isValidEnrollmentAction x = Some b"
    using isValidEnrollmentAction_total by blast
  from Cons.prems(1) have bT: "b" and rest: "enrollmentActions_loop xs (Suc i) = Some None"
    by (cases b; simp add: b)+
  from Cons.prems(2) have "a = x \<or> a \<in> set xs" by simp
  then show ?case
  proof
    assume "a = x" with b bT show ?thesis by simp
  next
    assume "a \<in> set xs" with Cons.IH rest show ?thesis by blast
  qed
qed

lemma finishedChecks_NoneD:
  assumes obj: "isObject obj" and fc: "finishedChecks d obj = Some None"
  shows "isNonNegativeNumber (own obj ''duration'')"
    and "own obj ''enrollmentActions'' = JArr xs \<Longrightarrow> enrollmentActions_loop xs 0 = Some None"
    and "own obj ''userEntry'' \<noteq> JUndefined \<Longrightarrow> isValidUserEntry (own obj ''userEntry'') = Some True"
proof -
  obtain fo where fo: "isValidTimestamp d (own obj ''finished'') = Some fo"
    using isValidTimestamp_total by blast
  obtain ue where ue: "isValidUserEntry (own obj ''userEntry'') = Some ue"
    using isValidUserEntry_total by blast
  obtain ne where ne: "isNonEmptyString (own obj ''finished'') = Some ne"
    using isNonEmptyString_total by blast
  let ?acts = "if own obj ''enrollmentActions'' \<noteq> JUndefined then
                (case own obj ''enrollmentActions'' of
                   JArr xs \<Rightarrow> enrollmentActions_loop xs 0
                 | _ \<Rightarrow> Some (Some (rejected ''enrollmentActions must be an array'')))
              else Some None"
  have req: "requiredFinishedFields_loop obj REQUIRED_FINISHED_FIELDS = Some None"
    using requiredFinishedFields_loop_returns [OF obj, of REQUIRED_FINISHED_FIELDS]
  proof (cases rule: returns_rejectionE)
    case (2 m)
    with fc show ?thesis by (simp add: finishedChecks_def)
  qed
  then show "isNonNegativeNumber (own obj ''duration'')"
    by (cases ne) (simp_all add: REQUIRED_FINISHED_FIELDS_def getProp_object [OF obj] ne split: if_splits)
  have foT: "fo" using fc by (cases fo) (simp_all add: finishedChecks_def req getProp_object [OF obj] fo)
  have acts: "?acts = Some None"
    using enrollmentActions_part_returns [of "own obj ''enrollmentActions''"]
  proof (cases rule: returns_rejectionE)
    case (2 m)
    with fc foT show ?thesis by (simp add: finishedChecks_def req getProp_object [OF obj] fo)
  qed
  then show "enrollmentActions_loop xs 0 = Some None" if "own obj ''enrollmentActions'' = JArr xs"
    using that by simp
  show "isValidUserEntry (own obj ''userEntry'') = Some True" if "own obj ''userEntry'' \<noteq> JUndefined"
    using fc foT that 
    by (cases ue) (simp_all add: finishedChecks_def req getProp_object [OF obj] fo acts ue)
qed

text \<open>Two objects that differ in \<^verbatim>\<open>duration\<close> only.\<close>

lemma requiredBaseFields_loop_cong:
  assumes "isObject p" "isObject p'" "\<And>f. f \<in> set fs \<Longrightarrow> own p' f = own p f"
  shows "requiredBaseFields_loop p' fs = requiredBaseFields_loop p fs"
  using assms(3) by (induction fs) (simp_all add: getProp_object assms(1,2) cong: if_cong option.case_cong)

lemma optionalStrings_loop_cong:
  assumes "isObject p" "isObject p'" "\<And>f. f \<in> set fs \<Longrightarrow> own p' f = own p f"
  shows "optionalStrings_loop ret p' fs = optionalStrings_loop ret p fs"
  using assms(3) by (induction fs) (simp_all add: getProp_object assms(1,2) cong: if_cong option.case_cong)

lemma finishedChecks_cong:
  assumes p: "isObject p" and p': "isObject p'"
    and agree: "\<And>f. f \<noteq> ''duration'' \<Longrightarrow> own p' f = own p f"
    and dur: "isNonNegativeNumber (own p' ''duration'') = isNonNegativeNumber (own p ''duration'')"
  shows "finishedChecks d p' = finishedChecks d p"
  by (simp add: finishedChecks_def REQUIRED_FINISHED_FIELDS_def getProp_object p p' agree dur cong: if_cong option.case_cong)

lemma validateWebhookPayload_cong:
  assumes p: "isObject p" and p': "isObject p'"
    and agree: "\<And>f. f \<noteq> ''duration'' \<Longrightarrow> own p' f = own p f"
    and dur: "isNonNegativeNumber (own p' ''duration'') = isNonNegativeNumber (own p ''duration'')"
    and keys: "hasDangerousKeys p' = hasDangerousKeys p"
  shows "validateWebhookPayload d p' = validateWebhookPayload d p"
proof -
  have b: "requiredBaseFields_loop p' REQUIRED_BASE_FIELDS = requiredBaseFields_loop p REQUIRED_BASE_FIELDS"
    by (rule requiredBaseFields_loop_cong [OF p p']) (auto simp: REQUIRED_BASE_FIELDS_def agree)
  have c: "optionalStrings_loop ret p' [''jamfProVersion'', ''jssID'', ''computerName'']
         = optionalStrings_loop ret p [''jamfProVersion'', ''jssID'', ''computerName'']" for ret :: "string \<Rightarrow> ValidationResult"
    by (rule optionalStrings_loop_cong [OF p p']) (auto simp: agree)
  have o: "typeof p = ''object''" "p \<noteq> JNull" "typeof p' = ''object''" "p' \<noteq> JNull"
    using p p' by (auto simp: isObject_def)
  show ?thesis
    by (simp add: validateWebhookPayload_def o keys getProp_object p p' agree b c
        finishedChecks_cong [OF p p' agree dur] del: optionalStrings_loop.simps cong: if_cong option.case_cong)
qed

lemma own_update:
  "own (JObj (AList.update k v kvs)) f = (if f = k then v else own (JObj kvs) f)"
  by (simp add: update_conv')

lemma hasDangerousKeys_update:
  "k \<notin> set DANGEROUS_KEYS \<Longrightarrow> hasDangerousKeys (JObj (AList.update k v kvs)) = hasDangerousKeys (JObj kvs)"
  by (auto simp add: hasDangerousKeys_JObj dom_update)


section \<open>The validator: totality, forbidden keys, duration\<close>

lemmas example_validation_simps =
  validateWebhookPayload_def finishedChecks_def hasDangerousKeys_def getProp_def
  isValidEnrollmentAction_def isValidUserEntry_def isNonNegativeNumber_def
  isNonEmptyString_def isValidTimestamp_def trim_def isWhiteSpace_def
  DANGEROUS_KEYS_def VALID_EVENTS_def REQUIRED_BASE_FIELDS_def REQUIRED_FINISHED_FIELDS_def
  exampleDateIsNaN_def startedPayload_def finishedPayload_def ok_def rejected_def

text \<open>
  C9. \<^verbatim>\<open>validateWebhookPayload\<close> returns on every value, whatever the engine's date
  parsing: no property read, \<^verbatim>\<open>Object.keys\<close> or \<^verbatim>\<open>trim\<close> call in it throws. The
  result is \<^verbatim>\<open>{valid: true}\<close> without an error, or \<^verbatim>\<open>{valid: false}\<close> with an error
  string. (The argument is a value of the model and cannot change.)
\<close>

theorem validateWebhookPayload_total:
  "\<exists>r. validateWebhookPayload dateNaN p = Some r \<and>
       ((valid r \<and> error r = None) \<or> (\<not> valid r \<and> (\<exists>msg. error r = Some msg)))"
  using validate_total [of dateNaN p] by (auto simp: ok_def rejected_def)

theorem validateWebhookPayload_total_witness:
  "(\<exists>r. validateWebhookPayload exampleDateIsNaN (JArr [JNull, JObj [(''a'', JArr [])]]) = Some r \<and>
       ((valid r \<and> error r = None) \<or> (\<not> valid r \<and> (\<exists>msg. error r = Some msg))))
   \<and> validateWebhookPayload exampleDateIsNaN JNull
        = Some \<lparr>valid = False, error = Some ''Payload must be a non-null object''\<rparr>
   \<and> validateWebhookPayload exampleDateIsNaN (JObj startedPayload)
        = Some \<lparr>valid = True, error = None\<rparr>"
  using validateWebhookPayload_total [of exampleDateIsNaN "JArr [JNull, JObj [(''a'', JArr [])]]"]
  by (simp add: example_validation_simps)

text \<open>
  C5, as stated, fails: the nested objects are only looked at for a finished event. A
  started event whose \<^verbatim>\<open>userEntry\<close> has the own key \<^verbatim>\<open>__proto__\<close>, and whose
  \<^verbatim>\<open>enrollmentActions\<close> has an element with the own key \<^verbatim>\<open>constructor\<close>, is accepted.
\<close>

theorem dangerous_keys_started_event_accepted:
  "own (JObj (startedPayload @
            [(''userEntry'', JObj [(''__proto__'', JStr ''x'')]),
             (''enrollmentActions'', JArr [JObj [(''constructor'', JNull)]])])) ''userEntry''
     = JObj [(''__proto__'', JStr ''x'')]
   \<and> own (JObj (startedPayload @
            [(''userEntry'', JObj [(''__proto__'', JStr ''x'')]),
             (''enrollmentActions'', JArr [JObj [(''constructor'', JNull)]])])) ''enrollmentActions''
     = JArr [JObj [(''constructor'', JNull)]]
   \<and> ''__proto__'' \<in> set DANGEROUS_KEYS \<and> ''constructor'' \<in> set DANGEROUS_KEYS
   \<and> validateWebhookPayload exampleDateIsNaN
        (JObj (startedPayload @
            [(''userEntry'', JObj [(''__proto__'', JStr ''x'')]),
             (''enrollmentActions'', JArr [JObj [(''constructor'', JNull)]])]))
     = Some \<lparr>valid = True, error = None\<rparr>"
  by (simp add: example_validation_simps)

text \<open>
  C5, amended. A payload object is rejected when it has an own key \<^verbatim>\<open>__proto__\<close>,
  \<^verbatim>\<open>constructor\<close> or \<^verbatim>\<open>prototype\<close>; and a payload object whose \<^verbatim>\<open>event\<close> is
  \<^verbatim>\<open>com.jamf.setupmanager.finished\<close> is rejected when an object among the elements of its
  \<^verbatim>\<open>enrollmentActions\<close> array, or its \<^verbatim>\<open>userEntry\<close> object, has such an own key.
\<close>

theorem dangerous_keys_rejected:
  assumes "(\<exists>k \<in> fst ` set kvs. k \<in> set DANGEROUS_KEYS)
     \<or> (own (JObj kvs) ''event'' = JStr ''com.jamf.setupmanager.finished'' \<and>
         ((\<exists>xs a. own (JObj kvs) ''enrollmentActions'' = JArr xs \<and> JObj a \<in> set xs
               \<and> (\<exists>k \<in> fst ` set a. k \<in> set DANGEROUS_KEYS))
        \<or> (\<exists>u. own (JObj kvs) ''userEntry'' = JObj u \<and> (\<exists>k \<in> fst ` set u. k \<in> set DANGEROUS_KEYS))))"
  shows "\<exists>r. validateWebhookPayload dateNaN (JObj kvs) = Some r \<and> \<not> valid r"
proof -
  have obj: "isObject (JObj kvs)" by (simp add: isObject_def)
  from obj show ?thesis
  proof (rule validate_object [where d = dateNaN])
    fix m assume "validateWebhookPayload dateNaN (JObj kvs) = Some (rejected m)"
    then show ?thesis by simp
  next
    assume dk: "hasDangerousKeys (JObj kvs) = Some False"
      and fin: "own (JObj kvs) ''event'' = JStr ''com.jamf.setupmanager.finished'' \<Longrightarrow>
                finishedChecks dateNaN (JObj kvs) = Some None"
    from dk have top: "\<not> (\<exists>k \<in> fst ` set kvs. k \<in> set DANGEROUS_KEYS)"
      by (simp add: hasDangerousKeys_JObj)
    with assms have ev: "own (JObj kvs) ''event'' = JStr ''com.jamf.setupmanager.finished''"
      and nested: "(\<exists>xs a. own (JObj kvs) ''enrollmentActions'' = JArr xs \<and> JObj a \<in> set xs
               \<and> (\<exists>k \<in> fst ` set a. k \<in> set DANGEROUS_KEYS))
        \<or> (\<exists>u. own (JObj kvs) ''userEntry'' = JObj u \<and> (\<exists>k \<in> fst ` set u. k \<in> set DANGEROUS_KEYS))"
      by blast+
    note fc = fin [OF ev]
    from nested have False
    proof
      assume "\<exists>xs a. own (JObj kvs) ''enrollmentActions'' = JArr xs \<and> JObj a \<in> set xs
               \<and> (\<exists>k \<in> fst ` set a. k \<in> set DANGEROUS_KEYS)"
      then obtain xs a where xs: "own (JObj kvs) ''enrollmentActions'' = JArr xs" and a: "JObj a \<in> set xs"
        and bad: "\<exists>k \<in> fst ` set a. k \<in> set DANGEROUS_KEYS" by blast
      have "enrollmentActions_loop xs 0 = Some None"
        by (rule finishedChecks_NoneD(2) [OF obj fc xs])
      then have "isValidEnrollmentAction (JObj a) = Some True"
        using a by (rule enrollmentActions_loop_NoneD)
      then have "hasDangerousKeys (JObj a) = Some False"
        by (rule isValidEnrollmentAction_TrueD)
      with bad show False by (simp add: hasDangerousKeys_JObj)
    next
      assume "\<exists>u. own (JObj kvs) ''userEntry'' = JObj u \<and> (\<exists>k \<in> fst ` set u. k \<in> set DANGEROUS_KEYS)"
      then obtain u where u: "own (JObj kvs) ''userEntry'' = JObj u"
        and bad: "\<exists>k \<in> fst ` set u. k \<in> set DANGEROUS_KEYS" by blast
      have "isValidUserEntry (own (JObj kvs) ''userEntry'') = Some True"
        by (rule finishedChecks_NoneD(3) [OF obj fc]) (simp add: u del: own.simps)
      then have "hasDangerousKeys (JObj u) = Some False"
        unfolding u by (rule isValidUserEntry_TrueD)
      with bad show False by (simp add: hasDangerousKeys_JObj)
    qed
    then show ?thesis ..
  qed
qed

theorem dangerous_keys_rejected_witness:
  "own (JObj (finishedPayload @
          [(''duration'', JNum (Finite 300)),
           (''enrollmentActions'',
              JArr [JObj [(''label'', JStr ''A''), (''status'', JStr ''finished''),
                          (''prototype'', JNull)]])])) ''event''
      = JStr ''com.jamf.setupmanager.finished''
   \<and> own (JObj (finishedPayload @
          [(''duration'', JNum (Finite 300)),
           (''enrollmentActions'',
              JArr [JObj [(''label'', JStr ''A''), (''status'', JStr ''finished''),
                          (''prototype'', JNull)]])])) ''enrollmentActions''
      = JArr [JObj [(''label'', JStr ''A''), (''status'', JStr ''finished''), (''prototype'', JNull)]]
   \<and> ''prototype'' \<in> set DANGEROUS_KEYS
   \<and> (\<exists>r. validateWebhookPayload exampleDateIsNaN
          (JObj (finishedPayload @
            [(''duration'', JNum (Finite 300)),
             (''enrollmentActions'',
                JArr [JObj [(''label'', JStr ''A''), (''status'', JStr ''finished''),
                            (''prototype'', JNull)]])])) = Some r \<and> \<not> valid r)"
proof -
  let ?a = "[(''label'', JStr ''A''), (''status'', JStr ''finished''), (''prototype'', JNull)]"
  let ?p = "finishedPayload @ [(''duration'', JNum (Finite 300)), (''enrollmentActions'', JArr [JObj ?a])]"
  have ev: "own (JObj ?p) ''event'' = JStr ''com.jamf.setupmanager.finished''"
    by (simp add: finishedPayload_def)
  have ea: "own (JObj ?p) ''enrollmentActions'' = JArr [JObj ?a]"
    by (simp add: finishedPayload_def)
  have k: "''prototype'' \<in> set DANGEROUS_KEYS"
    by (simp add: DANGEROUS_KEYS_def)
  have bad: "\<exists>xs a. own (JObj ?p) ''enrollmentActions'' = JArr xs \<and> JObj a \<in> set xs
               \<and> (\<exists>k \<in> fst ` set a. k \<in> set DANGEROUS_KEYS)"
  proof (intro exI conjI)
    show "own (JObj ?p) ''enrollmentActions'' = JArr [JObj ?a]" by (rule ea)
    show "JObj ?a \<in> set [JObj ?a]" by simp
    show "\<exists>k \<in> fst ` set ?a. k \<in> set DANGEROUS_KEYS" using k by simp
  qed
  from ev bad have "\<exists>r. validateWebhookPayload exampleDateIsNaN (JObj ?p) = Some r \<and> \<not> valid r"
    by (intro dangerous_keys_rejected) blast
  with ev ea k show ?thesis by blast
qed

text \<open>
  C6. For a payload object whose \<^verbatim>\<open>event\<close> is \<^verbatim>\<open>com.jamf.setupmanager.finished\<close>: it is
  rejected when its \<^verbatim>\<open>duration\<close> is a negative number, NaN, an infinity, or not a number
  (absent included); and when some value of \<^verbatim>\<open>duration\<close> makes it valid (it is otherwise
  valid), it is accepted with \<^verbatim>\<open>duration\<close> 0.
\<close>

theorem duration_check:
  assumes ev: "own (JObj kvs) ''event'' = JStr ''com.jamf.setupmanager.finished''"
  shows "(let dur = own (JObj kvs) ''duration'' in
           (\<exists>x<0. dur = JNum (Finite x)) \<or> dur = JNum NaN \<or> dur = JNum Infinity
             \<or> dur = JNum NegInfinity \<or> typeof dur \<noteq> ''number''
          \<longrightarrow> (\<exists>r. validateWebhookPayload dateNaN (JObj kvs) = Some r \<and> \<not> valid r))
       \<and> (\<forall>v r. validateWebhookPayload dateNaN (JObj (AList.update ''duration'' v kvs)) = Some r \<and> valid r
          \<longrightarrow> validateWebhookPayload dateNaN (JObj (AList.update ''duration'' (JNum (Finite 0)) kvs))
                = Some \<lparr>valid = True, error = None\<rparr>)"
proof -
  have rej: "\<exists>r. validateWebhookPayload dateNaN (JObj kvs) = Some r \<and> \<not> valid r"
    if bad: "(\<exists>x<0. own (JObj kvs) ''duration'' = JNum (Finite x)) \<or> own (JObj kvs) ''duration'' = JNum NaN
     \<or> own (JObj kvs) ''duration'' = JNum Infinity \<or> own (JObj kvs) ''duration'' = JNum NegInfinity
     \<or> typeof (own (JObj kvs) ''duration'') \<noteq> ''number''"
  proof -
    have nn: "\<not> isNonNegativeNumber (own (JObj kvs) ''duration'')"
      using bad by (cases "own (JObj kvs) ''duration''") (auto simp: isNonNegativeNumber_def simp del: own.simps)
    have obj: "isObject (JObj kvs)" by (simp add: isObject_def)
    from obj show ?thesis
    proof (rule validate_object [where d = dateNaN])
      fix m assume "validateWebhookPayload dateNaN (JObj kvs) = Some (rejected m)"
      then show ?thesis by simp
    next
      assume "own (JObj kvs) ''event'' = JStr ''com.jamf.setupmanager.finished'' \<Longrightarrow>
                  finishedChecks dateNaN (JObj kvs) = Some None"
      from finishedChecks_NoneD(1) [OF obj this [OF ev]] nn show ?thesis by simp
    qed
  qed
  have acc: "validateWebhookPayload dateNaN (JObj (AList.update ''duration'' (JNum (Finite 0)) kvs))
                = Some \<lparr>valid = True, error = None\<rparr>"
    if a: "validateWebhookPayload dateNaN (JObj (AList.update ''duration'' v kvs)) = Some r \<and> valid r"
    for v r
  proof -
    let ?p = "JObj (AList.update ''duration'' v kvs)"
    let ?p' = "JObj (AList.update ''duration'' (JNum (Finite 0)) kvs)"
    have obj: "isObject ?p" "isObject ?p'" by (simp_all add: isObject_def)
    have ev': "own ?p ''event'' = JStr ''com.jamf.setupmanager.finished''"
      using ev by (simp add: own_update del: own.simps)
    from obj(1) have okp: "validateWebhookPayload dateNaN ?p = Some ok \<and> isNonNegativeNumber (own ?p ''duration'')"
    proof (rule validate_object [where d = dateNaN])
      fix m assume "validateWebhookPayload dateNaN ?p = Some (rejected m)"
      with a have "valid (rejected m)" by auto
      then show ?thesis by simp
    next
      assume "validateWebhookPayload dateNaN ?p = Some ok"
        and "own ?p ''event'' = JStr ''com.jamf.setupmanager.finished'' \<Longrightarrow>
                  finishedChecks dateNaN ?p = Some None"
      with finishedChecks_NoneD(1) [OF obj(1)] ev' show ?thesis by blast
    qed
    have "validateWebhookPayload dateNaN ?p' = validateWebhookPayload dateNaN ?p"
    proof (rule validateWebhookPayload_cong [OF obj])
      show "own ?p' f = own ?p f" if "f \<noteq> ''duration''" for f
        using that by (simp add: own_update del: own.simps)
      show "isNonNegativeNumber (own ?p' ''duration'') = isNonNegativeNumber (own ?p ''duration'')"
        using okp by (simp add: own_update isNonNegativeNumber_def del: own.simps)
      show "hasDangerousKeys ?p' = hasDangerousKeys ?p"
        by (simp add: hasDangerousKeys_update DANGEROUS_KEYS_def)
    qed
    with okp show ?thesis by (simp add: ok_def)
  qed
  show ?thesis
    unfolding Let_def using rej acc by blast
qed

theorem duration_check_witness:
  "own (JObj (finishedPayload @ [(''duration'', JNum (Finite (- 5)))])) ''event''
      = JStr ''com.jamf.setupmanager.finished''
   \<and> (\<exists>r. validateWebhookPayload exampleDateIsNaN
              (JObj (finishedPayload @ [(''duration'', JNum (Finite (- 5)))])) = Some r \<and> \<not> valid r)
   \<and> validateWebhookPayload exampleDateIsNaN
        (JObj (AList.update ''duration'' (JNum (Finite 300))
                 (finishedPayload @ [(''duration'', JNum (Finite (- 5)))])))
      = Some \<lparr>valid = True, error = None\<rparr>
   \<and> validateWebhookPayload exampleDateIsNaN
        (JObj (AList.update ''duration'' (JNum (Finite 0))
                 (finishedPayload @ [(''duration'', JNum (Finite (- 5)))])))
      = Some \<lparr>valid = True, error = None\<rparr>"
proof -
  let ?p = "finishedPayload @ [(''duration'', JNum (Finite (- 5)))]"
  have ev: "own (JObj ?p) ''event'' = JStr ''com.jamf.setupmanager.finished''"
    by (simp add: finishedPayload_def)
  have dur: "own (JObj ?p) ''duration'' = JNum (Finite (- 5))"
    by (simp add: finishedPayload_def)
  have v300: "validateWebhookPayload exampleDateIsNaN
        (JObj (AList.update ''duration'' (JNum (Finite 300)) ?p)) = Some \<lparr>valid = True, error = None\<rparr>"
    by (simp add: example_validation_simps)
  note inst = duration_check [OF ev, of exampleDateIsNaN, unfolded Let_def dur]
  from inst have rej: "\<exists>r. validateWebhookPayload exampleDateIsNaN (JObj ?p) = Some r \<and> \<not> valid r"
    by simp
  have "validateWebhookPayload exampleDateIsNaN
          (JObj (AList.update ''duration'' (JNum (Finite 300)) ?p))
            = Some \<lparr>valid = True, error = None\<rparr>
        \<and> valid \<lparr>valid = True, error = None\<rparr>"
    using v300 by simp
  then have "\<exists>v r. validateWebhookPayload exampleDateIsNaN
          (JObj (AList.update ''duration'' v ?p)) = Some r \<and> valid r"
    by (intro exI)
  with inst have "validateWebhookPayload exampleDateIsNaN
        (JObj (AList.update ''duration'' (JNum (Finite 0)) ?p)) = Some \<lparr>valid = True, error = None\<rparr>"
    by blast
  with ev rej v300 show ?thesis by blast
qed
section \<open>Rounding to doubles\<close>

lemma round_half_even_error: "\<bar>of_int (round_half_even z) - z\<bar> \<le> 1 / 2"
  unfolding round_half_even_def Let_def by (simp; linarith)



lemma double_round_zero [simp]: "double_round 0 = Finite 0"
  by (simp add: double_round_def)

lemma double_round_unfold:
  assumes "x \<noteq> 0"
  defines "ulp \<equiv> 2 powr (of_int (max \<lfloor>log 2 \<bar>x\<bar>\<rfloor> (- 1022)) - 52)"
  defines "y \<equiv> of_int (round_half_even (\<bar>x\<bar> / ulp)) * ulp"
  shows "double_round x =
           (if 2 powr 1024 \<le> y then (if 0 < x then Infinity else NegInfinity)
            else Finite (sgn x * y))"
  unfolding double_round_def Let_def y_def ulp_def using assms by (simp only: if_False)

lemma double_round_normal:
  assumes lo: "2 powr (- 1022) \<le> (x::real)" and hi: "x < 2 powr 1023"
  defines "y \<equiv> of_int (round_half_even (x / 2 powr (of_int \<lfloor>log 2 x\<rfloor> - 52))) *
                  2 powr (of_int \<lfloor>log 2 x\<rfloor> - 52)"
  shows "double_round x = Finite y \<and> \<bar>y - x\<bar> \<le> x * 2 powr (- 53)"
proof -
  have x: "0 < x"
    using lo by (rule less_le_trans [rotated]) simp
  define e where "e = \<lfloor>log 2 x\<rfloor>"
  have e1: "of_int e \<le> log 2 x" and e2: "log 2 x < of_int e + 1"
    unfolding e_def by linarith+
  have p1: "2 powr of_int e \<le> x"
    using e1 x by (simp add: le_log_iff)
  have p2: "x < 2 powr (of_int e + 1)"
    using e2 x by (simp add: log_less_iff)
  have "- 1022 \<le> log 2 x"
    using lo x by (simp add: le_log_iff)
  then have elo: "- 1022 \<le> e"
    unfolding e_def by (simp add: le_floor_iff)
  define ulp where "ulp = (2::real) powr (of_int e - 52)"
  have ulp: "0 < ulp"
    by (simp add: ulp_def)
  define r where "r = round_half_even (x / ulp)"
  have y_def: "y = of_int r * ulp"
    unfolding y_def r_def ulp_def e_def ..
  have "\<bar>of_int r - x / ulp\<bar> \<le> 1 / 2"
    unfolding r_def by (rule round_half_even_error)
  then have "\<bar>of_int r - x / ulp\<bar> * ulp \<le> 1 / 2 * ulp"
    using ulp by (simp add: mult_right_mono)
  moreover have "\<bar>of_int r - x / ulp\<bar> * ulp = \<bar>y - x\<bar>"
  proof -
    have "\<bar>of_int r - x / ulp\<bar> * ulp = \<bar>(of_int r - x / ulp) * ulp\<bar>"
      using ulp by (simp add: abs_mult)
    also have "(of_int r - x / ulp) * ulp = y - x"
      using ulp by (simp add: y_def algebra_simps)
    finally show ?thesis .
  qed
  moreover have "1 / 2 * ulp = 2 powr of_int e * 2 powr (- 53)"
  proof -
    have "(2::real) powr of_int e * 2 powr (- 53) = 2 powr (of_int e - 52 + (- 1))"
      by (simp add: powr_add [symmetric])
    also have "\<dots> = ulp * 2 powr (- 1)"
      unfolding ulp_def by (simp only: powr_add)
    also have "\<dots> = 1 / 2 * ulp"
      by (simp add: powr_minus)
    finally show ?thesis by simp
  qed
  ultimately have err0: "\<bar>y - x\<bar> \<le> 2 powr of_int e * 2 powr (- 53)"
    by simp
  also have "\<dots> \<le> x * 2 powr (- 53)"
    using p1 by (simp add: mult_right_mono)
  finally have err: "\<bar>y - x\<bar> \<le> x * 2 powr (- 53)" .
  have "(2::real) powr (- 53) < 1"
    by (simp add: powr_minus) 
  then have "x * 2 powr (- 53) < x * 1"
    using x by (simp only: mult_less_cancel_left_pos)
  with err have "y < 2 * x"
    by linarith
  also have "\<dots> < 2 * 2 powr 1023"
    using hi by simp
  also have "\<dots> = 2 powr 1024"
    using powr_add [of "2::real" 1 1023] by simp
  finally have ybound: "y < 2 powr 1024" .
  have "max \<lfloor>log 2 \<bar>x\<bar>\<rfloor> (- 1022) = e"
    using x elo by (simp add: e_def)
  moreover have "x \<noteq> 0" "\<bar>x\<bar> = x" "sgn x = 1"
    using x by simp_all
  ultimately have "double_round x = Finite y"
    using ybound double_round_unfold [of x]
    by (simp add: ulp_def [symmetric] r_def [symmetric] y_def [symmetric] del: powr_numeral)
  with err show ?thesis
    by simp
qed


lemma double_round_eval:
  fixes e :: int
  assumes "2 powr of_int e \<le> (x::real)" and "x < 2 powr (of_int e + 1)"
    and "- 1022 \<le> e" and "e \<le> 1022"
  shows "double_round x =
           Finite (of_int (round_half_even (x / 2 powr (of_int e - 52))) * 2 powr (of_int e - 52))"
proof -
  have x: "0 < x"
    using assms(1) by (rule less_le_trans [rotated]) simp
  have "of_int e \<le> log 2 x" "log 2 x < of_int e + 1"
    using assms(1,2) x by (simp_all add: le_log_iff log_less_iff)
  then have e: "\<lfloor>log 2 x\<rfloor> = e"
    by (rule floor_unique)
  have "(2::real) powr (- 1022) \<le> 2 powr of_int e"
    using assms(3) by (intro powr_mono) simp_all
  then have lo: "2 powr (- 1022) \<le> x"
    using assms(1) by (rule order_trans)
  have "(2::real) powr (of_int e + 1) \<le> 2 powr 1023"
    using assms(4) by (intro powr_mono) simp_all
  with assms(2) have hi: "x < 2 powr 1023"
    by (rule less_le_trans)
  from double_round_normal [OF lo hi] show ?thesis
    unfolding e by simp
qed

text \<open>
  The arithmetic is that of doubles: of 40 finished events with 23 successful ones the
  quotient rounds to a double below 0.575, the product to 57.49999999999999, and
  \<^verbatim>\<open>Math.round\<close> gives 57, where the exact percentage is 57.5.
\<close>

lemma successRate_23_of_40:
  "Math_round (num_mul (num_div (Finite 23) (Finite 40)) (Finite 100)) = Finite 57"
proof -
  have "double_round (23 / 40) =
          Finite (of_int (round_half_even ((23 / 40) / 2 powr (of_int (- 1) - 52))) *
                  2 powr (of_int (- 1) - 52))"
    by (rule double_round_eval) (simp_all add: powr_minus)
  also have "(23 / 40) / 2 powr (of_int (- 1) - 52) = (5179139571476070 + 2 / 5 :: real)"
    by (simp add: powr_minus)
  also have "round_half_even (5179139571476070 + 2 / 5) = 5179139571476070"
    by (simp add: round_half_even_def)
  finally have q: "num_div (Finite 23) (Finite 40) =
      Finite (5179139571476070 * 2 powr (of_int (- 1) - 52))"
    by (simp add: num_div_def)
  have "double_round (5179139571476070 * 2 powr (of_int (- 1) - 52) * 100) =
          Finite (of_int (round_half_even
                    ((5179139571476070 * 2 powr (of_int (- 1) - 52) * 100) / 2 powr (of_int 5 - 52))) *
                  2 powr (of_int 5 - 52))"
    by (rule double_round_eval) (simp_all add: powr_minus)
  also have "(5179139571476070 * 2 powr (of_int (- 1) - 52) * 100) / 2 powr (of_int 5 - 52)
               = (8092405580431359 + 3 / 8 :: real)"
    by (simp add: powr_minus)
  also have "round_half_even (8092405580431359 + 3 / 8) = 8092405580431359"
    by (simp add: round_half_even_def)
  finally have p: "num_mul (num_div (Finite 23) (Finite 40)) (Finite 100) =
      Finite (8092405580431359 * 2 powr (of_int 5 - 52))"
    unfolding q by (simp add: num_mul_def)
  show ?thesis
    unfolding p by (simp add: powr_minus)
qed










section \<open>The viewer's reconnect loop\<close>

lemma consecutiveCloses_numeral:
  "consecutiveCloses (numeral n) a =
     (case onclose a of (m, delay) \<Rightarrow> delay # consecutiveCloses (pred_numeral n) m)"
  by (simp add: numeral_eq_Suc)

lemma consecutiveCloses_1:
  "consecutiveCloses 1 a = [snd (onclose a)]"
  by (simp add: case_prod_unfold)

lemma consecutiveCloses_10:
  "consecutiveCloses 10 0 =
     map Some [1000, 2000, 4000, 8000, 16000, 30000, 30000, 30000, 30000, 30000]"
  by (simp add: consecutiveCloses_numeral consecutiveCloses_1 onclose_def maxReconnectAttempts_def)

lemma onclose_exhausted: "maxReconnectAttempts \<le> a \<Longrightarrow> onclose a = (a, None)"
  by (simp add: onclose_def)

lemma consecutiveCloses_exhausted:
  "maxReconnectAttempts \<le> a \<Longrightarrow> consecutiveCloses k a = replicate k None"
  by (induction k) (simp_all add: onclose_exhausted)

lemma consecutiveCloses_add:
  assumes "a \<le> maxReconnectAttempts"
  shows "consecutiveCloses (j + k) a =
           consecutiveCloses j a @ consecutiveCloses k (min maxReconnectAttempts (a + j))"
  using assms
proof (induction j arbitrary: a)
  case 0
  then show ?case by (simp add: min_def)
next
  case (Suc j)
  show ?case
  proof (cases "a < maxReconnectAttempts")
    case True
    then have "onclose a = (a + 1, Some (min (1000 * 2 ^ a) 30000))"
      by (simp add: onclose_def)
    moreover have "a + 1 \<le> maxReconnectAttempts"
      using True by simp
    ultimately show ?thesis
      using Suc.IH [of "a + 1"] by simp
  next
    case False
    with Suc.prems have a: "a = maxReconnectAttempts"
      by simp
    then show ?thesis
      using consecutiveCloses_exhausted [of a]
      by (simp add: replicate_add [symmetric] del: replicate_add)
  qed
qed

lemma consecutiveCloses_nth:
  assumes "i < k" and "a + i < maxReconnectAttempts"
  shows "consecutiveCloses k a ! i = Some (min (1000 * 2 ^ (a + i)) 30000)"
  using assms
proof (induction k arbitrary: a i)
  case 0
  then show ?case by simp
next
  case (Suc k)
  from Suc.prems(2) have "a < maxReconnectAttempts"
    by simp
  then have o: "onclose a = (a + 1, Some (min (1000 * 2 ^ a) 30000))"
    by (simp add: onclose_def)
  show ?case
  proof (cases i)
    case 0
    with o show ?thesis by simp
  next
    case (Suc j)
    with Suc.prems have "j < k" "(a + 1) + j < maxReconnectAttempts"
      by simp_all
    from Suc.IH [OF this] o Suc show ?thesis
      by simp
  qed
qed

lemma reconnectDelays_closes:
  "reconnectDelays (replicate k Closed) a = consecutiveCloses k a"
  by (induction k arbitrary: a) (simp_all split: prod.splits)

lemma reconnectDelays_after_open:
  "reconnectDelays (evs @ Opened # replicate k Closed) a =
     reconnectDelays evs a @ consecutiveCloses k 0"
proof (induction evs arbitrary: a)
  case Nil
  then show ?case by (simp add: reconnectDelays_closes onopen_def)
next
  case (Cons ev evs)
  then show ?case
    by (cases ev) (simp_all split: prod.splits)
qed

text \<open>
  C8. Over consecutive failures, starting from a counter of 0, the closes schedule the
  delays 1000, 2000, 4000, 8000, 16000 and five times 30000 milliseconds; the close
  before reconnect attempt \<open>n\<close> (1 to 10) finds the counter at \<open>n - 1\<close> and schedules
  \<open>min (1000 * 2 ^ (n - 1)) 30000\<close>; the close after the tenth attempt, and every later
  one, schedules nothing. The failures are consecutive from the mount of the viewer,
  where the counter is 0, and from every open, which resets it: whatever happened
  before, the closes that follow an open schedule the same delays again.
\<close>

theorem reconnect_backoff:
  "consecutiveCloses 10 0 =
     map Some [1000, 2000, 4000, 8000, 16000, 30000, 30000, 30000, 30000, 30000]
   \<and> (\<forall>n. 1 \<le> n \<and> n \<le> 10 \<longrightarrow>
          onclose (n - 1) = (n, Some (min (1000 * 2 ^ (n - 1)) 30000))
        \<and> consecutiveCloses 10 0 ! (n - 1) = Some (min (1000 * 2 ^ (n - 1)) 30000))
   \<and> onclose 10 = (10, None)
   \<and> (\<forall>k. consecutiveCloses (10 + k) 0 = consecutiveCloses 10 0 @ replicate k None)
   \<and> (\<forall>k. reconnectDelays (replicate k Closed) 0 = consecutiveCloses k 0)
   \<and> (\<forall>evs a k. reconnectDelays (evs @ Opened # replicate k Closed) a =
                   reconnectDelays evs a @ consecutiveCloses k 0)"
proof (intro conjI allI impI)
  show c: "consecutiveCloses 10 0 =
     map Some [1000, 2000, 4000, 8000, 16000, 30000, 30000, 30000, 30000, 30000]"
    by (rule consecutiveCloses_10)
  show "onclose 10 = (10, None)"
    by (simp add: onclose_def maxReconnectAttempts_def)
  show "consecutiveCloses (10 + k) 0 = consecutiveCloses 10 0 @ replicate k None" for k
    using consecutiveCloses_add [of 0 10 k] consecutiveCloses_exhausted [of 10 k]
    by (simp add: maxReconnectAttempts_def)
  show "reconnectDelays (replicate k Closed) 0 = consecutiveCloses k 0" for k
    by (rule reconnectDelays_closes)
  show "reconnectDelays (evs @ Opened # replicate k Closed) a =
          reconnectDelays evs a @ consecutiveCloses k 0" for evs a k
    by (rule reconnectDelays_after_open)
  fix n :: nat
  assume n: "1 \<le> n \<and> n \<le> 10"
  then have "n - 1 < 10" "0 + (n - 1) < maxReconnectAttempts"
    unfolding maxReconnectAttempts_def by arith+
  then show "consecutiveCloses 10 0 ! (n - 1) = Some (min (1000 * 2 ^ (n - 1)) 30000)"
    using consecutiveCloses_nth [of "n - 1" 10 0] by simp
  from n have "n - 1 < maxReconnectAttempts" "n - 1 + 1 = n"
    unfolding maxReconnectAttempts_def by arith+
  then show "onclose (n - 1) = (n, Some (min (1000 * 2 ^ (n - 1)) 30000))"
    unfolding onclose_def by simp
qed

theorem reconnect_backoff_witness:
  "(1::nat) \<le> 6 \<and> (6::nat) \<le> 10
   \<and> onclose 5 = (6, Some 30000)
   \<and> consecutiveCloses 10 0 ! 5 = Some 30000
   \<and> consecutiveCloses 12 0 =
       map Some [1000, 2000, 4000, 8000, 16000, 30000, 30000, 30000, 30000, 30000] @ [None, None]
   \<and> reconnectDelays (replicate 12 Closed @ Opened # replicate 2 Closed) 0 =
       map Some [1000, 2000, 4000, 8000, 16000, 30000, 30000, 30000, 30000, 30000] @
       [None, None, Some 1000, Some 2000]"
proof -
  note r = reconnect_backoff
  have n: "(1::nat) \<le> 6 \<and> (6::nat) \<le> 10"
    by simp
  from r n have a: "onclose (6 - 1) = (6, Some (min (1000 * 2 ^ (6 - 1)) 30000))
      \<and> consecutiveCloses 10 0 ! (6 - 1) = Some (min (1000 * 2 ^ (6 - 1)) 30000)"
    by blast
  from r have b: "consecutiveCloses (10 + 2) 0 = consecutiveCloses 10 0 @ replicate 2 None"
    by blast
  from r have c: "consecutiveCloses 10 0 =
     map Some [1000, 2000, 4000, 8000, 16000, 30000, 30000, 30000, 30000, 30000]"
    by blast
  from r have d: "reconnectDelays (replicate 12 Closed) 0 = consecutiveCloses 12 0"
    by blast
  from r have e: "reconnectDelays (replicate 12 Closed @ Opened # replicate 2 Closed) 0 =
      reconnectDelays (replicate 12 Closed) 0 @ consecutiveCloses 2 0"
    by blast
  have f: "consecutiveCloses 2 0 = [Some 1000, Some 2000]"
    by (simp add: consecutiveCloses_numeral consecutiveCloses_1 onclose_def
        maxReconnectAttempts_def)
  have g: "consecutiveCloses 12 0 =
       map Some [1000, 2000, 4000, 8000, 16000, 30000, 30000, 30000, 30000, 30000] @ [None, None]"
    using b c by (simp add: numeral_2_eq_2)
  from a g show ?thesis
    unfolding e d f by simp
qed

section \<open>Broadcast\<close>

lemma broadcast_loop_eq:
  "broadcast_loop rt m wss (s, e, l) =
     (s + length (filter (\<lambda>ws. \<not> sendThrows rt ws m) wss),
      e + length (filter (\<lambda>ws. sendThrows rt ws m) wss),
      l @ map (\<lambda>ws. (ws, m, \<not> sendThrows rt ws m)) wss)"
  by (induction wss arbitrary: s e l) simp_all

text \<open>
  C7. A broadcast calls \<^verbatim>\<open>send\<close> once on every registered socket, in order, whether or
  not earlier calls threw (the log grows by one entry per socket); it reports the number
  of sockets, of sends that returned and of sends that threw, which add up; and the set
  of registered sockets is what it was.
\<close>

theorem broadcast_counts:
  "(case broadcast rt message room of (result, room') \<Rightarrow>
      clients result = length (webSockets room)
    \<and> errors result = length (filter (\<lambda>ws. sendThrows rt ws message) (webSockets room))
    \<and> success result = length (filter (\<lambda>ws. \<not> sendThrows rt ws message) (webSockets room))
    \<and> success result + errors result = clients result
    \<and> sendLog room' =
        sendLog room @ map (\<lambda>ws. (ws, message, \<not> sendThrows rt ws message)) (webSockets room)
    \<and> webSockets room' = webSockets room)"
  by (simp add: broadcast_def broadcast_loop_eq Let_def sum_length_filter_compl add.commute)

theorem broadcast_counts_witness:
  "broadcast exampleRuntime ''m'' \<lparr>webSockets = [1, 2, 3], sendLog = []\<rparr> =
     (\<lparr>broadcasted = True, clients = 3, success = 2, errors = 1\<rparr>,
      \<lparr>webSockets = [1, 2, 3],
       sendLog = [(1, ''m'', True), (2, ''m'', False), (3, ''m'', True)]\<rparr>)"
proof -
  obtain result room' where
    b: "broadcast exampleRuntime ''m'' \<lparr>webSockets = [1, 2, 3], sendLog = []\<rparr> = (result, room')"
    by (cases "broadcast exampleRuntime ''m'' \<lparr>webSockets = [1, 2, 3], sendLog = []\<rparr>")
  have bc: "broadcasted result"
    using b by (auto simp add: broadcast_def Let_def split: prod.splits)
  from broadcast_counts [where rt = exampleRuntime and message = "''m''"
      and room = "\<lparr>webSockets = [1, 2, 3], sendLog = []\<rparr>"]
  have "clients result = 3 \<and> errors result = 1 \<and> success result = 2
      \<and> sendLog room' = [(1, ''m'', True), (2, ''m'', False), (3, ''m'', True)]
      \<and> webSockets room' = [1, 2, 3]"
    unfolding b by (simp add: exampleRuntime_def)
  with bc have "result = \<lparr>broadcasted = True, clients = 3, success = 2, errors = 1\<rparr>"
    and "room' = \<lparr>webSockets = [1, 2, 3],
       sendLog = [(1, ''m'', True), (2, ''m'', False), (3, ''m'', True)]\<rparr>"
    by simp_all
  with b show ?thesis
    by simp
qed

section \<open>History\<close>
















lemma oversizedBody_long: "8192 \<le> length oversizedBody"
  by (simp add: oversizedBody_def)

lemma exampleText_short:
  "length exampleText1 < 8192" "length exampleText2 < 8192"
  "length exampleText3 < 8192" "length exampleText4 < 8192"
  by (simp_all add: exampleText1_def exampleText2_def exampleText3_def exampleText4_def)

lemma not_oversized: "length s < 8192 \<Longrightarrow> s \<noteq> oversizedBody"
  using oversizedBody_long by auto

lemma exampleText_not_oversized:
  "exampleText1 \<noteq> oversizedBody" "exampleText2 \<noteq> oversizedBody"
  "exampleText3 \<noteq> oversizedBody" "exampleText4 \<noteq> oversizedBody"
  "''5'' \<noteq> oversizedBody" "''{truncated'' \<noteq> oversizedBody"
  by (rule not_oversized, simp add: exampleText_short)+

lemma exampleText_distinct:
  "exampleText1 \<noteq> ''5''" "exampleText2 \<noteq> ''5''" "exampleText3 \<noteq> ''5''" "exampleText4 \<noteq> ''5''"
  "exampleText2 \<noteq> exampleText1" "exampleText3 \<noteq> exampleText1" "exampleText4 \<noteq> exampleText1"
  "exampleText3 \<noteq> exampleText2" "exampleText4 \<noteq> exampleText2" "exampleText4 \<noteq> exampleText3"
  "''{truncated'' \<noteq> exampleText1" "''{truncated'' \<noteq> exampleText2"
  "''{truncated'' \<noteq> exampleText3" "''{truncated'' \<noteq> exampleText4"
  by (simp_all add: exampleText1_def exampleText2_def exampleText3_def exampleText4_def)

lemma exampleText_nonempty:
  "exampleText1 \<noteq> []" "exampleText2 \<noteq> []" "exampleText3 \<noteq> []" "exampleText4 \<noteq> []"
  by (simp_all add: exampleText1_def exampleText2_def exampleText3_def exampleText4_def)

lemma exampleParse_simps:
  "exampleParse ''5'' = Some (JNum (Finite 5))"
  "exampleParse exampleText1 = Some exampleEvent1"
  "exampleParse exampleText2 = Some exampleEvent2"
  "exampleParse exampleText3 = Some exampleEvent3"
  "exampleParse exampleText4 = Some exampleEvent4"
  "exampleParse ''{truncated'' = None"
  by (simp_all add: exampleParse_def exampleText_not_oversized exampleText_distinct)

lemma exampleEvent_not_null:
  "exampleEvent1 \<noteq> JNull" "exampleEvent2 \<noteq> JNull" "exampleEvent3 \<noteq> JNull"
  "exampleEvent4 \<noteq> JNull"
  by (simp_all add: exampleEvent1_def exampleEvent2_def exampleEvent3_def exampleEvent4_def)

lemma readEvents_exampleStore:
  "readEvents exampleRuntime exampleStore 4 = [exampleEvent1, exampleEvent2, exampleEvent4]"
  "readEvents exampleRuntime exampleStore 1000 =
     [exampleEvent1, exampleEvent2, exampleEvent4, exampleEvent3]"
  by (simp_all add: readEvents_def readEvent_def kv_list_def kv_get_def exampleStore_def
      exampleRuntime_def exampleParse_simps exampleText_nonempty exampleEvent_not_null)








section \<open>Server-side statistics\<close>

lemma getProp_SomeD: "getProp x k = Some v \<Longrightarrow> v = own x k"
  by (simp add: getProp_def split: if_splits)

lemma getProp_JObj: "getProp (JObj kvs) k = Some (own (JObj kvs) k)"
  by (simp add: getProp_def)

lemma Array_filter_SomeD:
  assumes "Array_filter f xs = Some ys"
    and "\<And>x b. x \<in> set xs \<Longrightarrow> f x = Some b \<Longrightarrow> b = P x"
  shows "ys = filter P xs"
  using assms
proof (induction xs arbitrary: ys)
  case Nil
  then show ?case by simp
next
  case (Cons x xs)
  from Cons.prems(1) obtain b zs where b: "f x = Some b" and zs: "Array_filter f xs = Some zs"
    and ys: "ys = (if b then x # zs else zs)"
    by (auto simp add: bind_eq_Some_conv)
  have "zs = filter P xs"
    using zs Cons.prems(2) by (intro Cons.IH) simp_all
  moreover have "b = P x"
    using b Cons.prems(2) by simp
  ultimately show ?case
    using ys by simp
qed

lemma Array_every_SomeD:
  assumes "Array_every f xs = Some r"
    and "\<And>x b. x \<in> set xs \<Longrightarrow> f x = Some b \<Longrightarrow> b = P x"
  shows "r = list_all P xs"
  using assms
proof (induction xs)
  case Nil
  then show ?case by simp
next
  case (Cons x xs)
  from Cons.prems(1) obtain b where b: "f x = Some b"
    and r: "(if b then Array_every f xs else Some False) = Some r"
    by (auto simp add: bind_eq_Some_conv)
  have p: "b = P x"
    using b Cons.prems(2) by simp
  show ?case
  proof (cases b)
    case True
    with r have "Array_every f xs = Some r" by simp
    then have "r = list_all P xs"
      using Cons.prems(2) by (intro Cons.IH) simp_all
    with True p show ?thesis by simp
  next
    case False
    with r p show ?thesis by simp
  qed
qed

lemma Array_filter_total:
  assumes "\<forall>x \<in> set xs. f x \<noteq> None"
  shows "Array_filter f xs \<noteq> None"
  using assms by (induction xs) auto

lemma Array_map_total:
  assumes "\<forall>x \<in> set xs. f x \<noteq> None"
  shows "Array_map f xs \<noteq> None"
  using assms by (induction xs) auto

lemma Array_every_total:
  assumes "\<forall>x \<in> set xs. f x \<noteq> None"
  shows "Array_every f xs \<noteq> None"
  using assms by (induction xs) auto

lemma eventIs_SomeD:
  "eventIs name e = Some b \<Longrightarrow> b = (own (own e ''payload'') ''event'' = JStr name)"
  by (auto simp add: eventIs_def bind_eq_Some_conv dest!: getProp_SomeD)

lemma isSuccessfulEnrollment_SomeD:
  assumes "isSuccessfulEnrollment e = Some b"
  shows "b = allActionsFinished e"
proof -
  from assms obtain p has where p: "getProp e ''payload'' = Some p"
    and has: "hasProperty ''enrollmentActions'' p = Some has"
    and rest: "(if \<not> has then Some True
          else do {
            actions \<leftarrow> getProp p ''enrollmentActions'';
            if \<not> truthy actions then Some True
            else (case actions of
                    JArr xs \<Rightarrow>
                      Array_every (\<lambda>a. do { s \<leftarrow> getProp a ''status'';
                                            Some (s = JStr ''finished'') }) xs
                  | _ \<Rightarrow> None)
          }) = Some b"
    unfolding isSuccessfulEnrollment_def
    by (auto simp add: bind_eq_Some_conv)
  have p_def: "p = own e ''payload''"
    using p by (rule getProp_SomeD)
  define actions where "actions = own p ''enrollmentActions''"
  show ?thesis
  proof (cases has)
    case False
    with has have "actions = JUndefined"
      unfolding actions_def by (cases p) (auto dest: map_of_eq_None_iff [THEN iffD2])
    with False rest show ?thesis
      by (simp add: allActionsFinished_def p_def [symmetric] actions_def [symmetric])
  next
    case True
    with rest have r: "(if \<not> truthy actions then Some True
            else (case actions of
                    JArr xs \<Rightarrow>
                      Array_every (\<lambda>a. do { s \<leftarrow> getProp a ''status'';
                                            Some (s = JStr ''finished'') }) xs
                  | _ \<Rightarrow> None)) = Some b"
      unfolding actions_def by (auto simp add: bind_eq_Some_conv dest!: getProp_SomeD)
    show ?thesis
    proof (cases "truthy actions")
      case False
      then have "\<forall>xs. actions \<noteq> JArr xs"
        by auto
      with False r show ?thesis
        by (cases actions)
           (simp_all add: allActionsFinished_def p_def [symmetric] actions_def [symmetric])
    next
      case True
      with r obtain xs where xs: "actions = JArr xs"
        and e: "Array_every (\<lambda>a. do { s \<leftarrow> getProp a ''status'';
                                            Some (s = JStr ''finished'') }) xs = Some b"
        by (cases actions) simp_all
      from e have "b = list_all (\<lambda>a. own a ''status'' = JStr ''finished'') xs"
        by (rule Array_every_SomeD) (auto simp add: bind_eq_Some_conv dest!: getProp_SomeD)
      then show ?thesis
        by (simp add: allActionsFinished_def p_def [symmetric] actions_def [symmetric] xs)
    qed
  qed
qed

lemma isSuccessfulEnrollment_no_actions:
  assumes "isFinishedEntry e" "hasNoActions e"
  shows "isSuccessfulEnrollment e = Some True"
proof -
  from assms(1) obtain ekvs where e: "e = JObj ekvs"
    unfolding isFinishedEntry_def by (cases e) simp_all
  from assms(1) obtain kvs where p: "own e ''payload'' = JObj kvs"
    unfolding isFinishedEntry_def by (cases "own e ''payload''") simp_all
  have g: "getProp e ''payload'' = Some (JObj kvs)"
    unfolding e getProp_JObj p [unfolded e] ..
  have h: "hasProperty ''enrollmentActions'' (JObj kvs) =
             Some (''enrollmentActions'' \<in> set (map fst kvs))"
    by simp
  from assms(2) have "own (JObj kvs) ''enrollmentActions'' = JUndefined
      \<or> own (JObj kvs) ''enrollmentActions'' = JNull
      \<or> own (JObj kvs) ''enrollmentActions'' = JArr []"
    unfolding hasNoActions_def p .
  then show ?thesis
    unfolding isSuccessfulEnrollment_def g
    by (auto simp add: getProp_JObj simp del: own.simps)
qed

lemma bind_SomeE:
  assumes "Option.bind m f = Some r"
  obtains y where "m = Some y" and "f y = Some r"
  using assms by (cases m) simp_all

lemma handleStats_SomeD:
  assumes "handleStats rt env = Some response"
  shows "\<exists>finishedEvents.
    Array_filter (eventIs ''com.jamf.setupmanager.finished'')
       (readEvents rt (WEBHOOKS env) 1000) = Some finishedEvents
    \<and> finished_stat (content response) = length finishedEvents
    \<and> (finishedEvents = [] \<longrightarrow> successRate (content response) = Finite 0)
    \<and> (finishedEvents \<noteq> [] \<longrightarrow>
           (\<exists>good. Array_filter isSuccessfulEnrollment finishedEvents = Some good
             \<and> successRate (content response) =
                 Math_round (num_mul (num_div (Finite (real (length good)))
                                        (Finite (real (length finishedEvents))))
                               (Finite 100))))"
  using assms unfolding handleStats_def Let_def
  apply (elim bind_SomeE)
  subgoal for startedEvents finishedEvents serials timestamps
    apply (cases "finishedEvents = []")
     apply (simp add: json_def)
     apply fastforce
    apply (simp add: json_def)
    apply (elim bind_SomeE)
    apply fastforce
    done
  done


lemma Array_filter_subset:
  "Array_filter f xs = Some ys \<Longrightarrow> set ys \<subseteq> set xs"
proof (induction xs arbitrary: ys)
  case Nil
  then show ?case by simp
next
  case (Cons x xs)
  from Cons.prems obtain b zs where "Array_filter f xs = Some zs"
    and ys: "ys = (if b then x # zs else zs)"
    by (auto simp add: bind_eq_Some_conv)
  with Cons.IH [of zs] show ?case
    by auto
qed

lemma bind_not_None:
  assumes "m \<noteq> None" and "\<And>y. m = Some y \<Longrightarrow> f y \<noteq> None"
  shows "Option.bind m f \<noteq> None"
  using assms by (cases m) simp_all

lemma isEventShapedE:
  assumes "isEventShaped e"
  obtains ekvs kvs where "e = JObj ekvs" and "own e ''payload'' = JObj kvs"
    and "getProp e ''payload'' = Some (JObj kvs)"
proof -
  from assms obtain kvs where p: "own e ''payload'' = JObj kvs"
    unfolding isEventShaped_def by (cases "own e ''payload''") simp_all
  then obtain ekvs where e: "e = JObj ekvs"
    by (cases e) simp_all
  have "getProp e ''payload'' = Some (JObj kvs)"
    unfolding e getProp_JObj p [unfolded e] ..
  with e p show ?thesis
    by (rule that)
qed

lemma eventIs_total: "isEventShaped e \<Longrightarrow> eventIs name e \<noteq> None"
  by (erule isEventShapedE) (simp add: eventIs_def getProp_JObj del: own.simps)

lemma serialNumber_total:
  "isEventShaped e \<Longrightarrow>
     do { p \<leftarrow> getProp e ''payload''; getProp p ''serialNumber'' } \<noteq> None"
  by (erule isEventShapedE) (simp add: getProp_JObj del: own.simps)

lemma timestamp_total: "isEventShaped e \<Longrightarrow> getProp e ''timestamp'' \<noteq> None"
  by (erule isEventShapedE) (simp add: getProp_JObj del: own.simps)

lemma durationOf_total: "isEventShaped e \<Longrightarrow> durationOf e \<noteq> None"
  by (erule isEventShapedE) (simp add: durationOf_def getProp_JObj del: own.simps)

lemma isSuccessfulEnrollment_total:
  assumes "isEventShaped e" and "isFinishedEntry e"
  shows "isSuccessfulEnrollment e \<noteq> None"
proof -
  from assms(1) obtain kvs where p: "own e ''payload'' = JObj kvs"
    and g: "getProp e ''payload'' = Some (JObj kvs)"
    by (rule isEventShapedE)
  define actions where "actions = own (JObj kvs) ''enrollmentActions''"
  have "own (JObj kvs) ''event'' = JStr ''com.jamf.setupmanager.finished''"
    using assms(2) unfolding isFinishedEntry_def p .
  then have shaped: "case actions of
             JArr xs \<Rightarrow> list_all (\<lambda>a. a \<noteq> JUndefined \<and> a \<noteq> JNull) xs
           | v \<Rightarrow> \<not> truthy v"
    using assms(1) unfolding isEventShaped_def p actions_def by simp
  have "(if \<not> truthy actions then Some True
            else (case actions of
                    JArr xs \<Rightarrow>
                      Array_every (\<lambda>a. do { s \<leftarrow> getProp a ''status'';
                                            Some (s = JStr ''finished'') }) xs
                  | _ \<Rightarrow> None)) \<noteq> None"
  proof (cases actions)
    case (JArr xs)
    with shaped have "\<forall>a \<in> set xs. a \<noteq> JUndefined \<and> a \<noteq> JNull"
      by (simp add: list_all_iff)
    then have "Array_every (\<lambda>a. do { s \<leftarrow> getProp a ''status'';
                                            Some (s = JStr ''finished'') }) xs \<noteq> None"
      by (intro Array_every_total) (simp add: getProp_def)
    with JArr show ?thesis by simp
  qed (insert shaped, simp_all)
  then show ?thesis
    unfolding isSuccessfulEnrollment_def g actions_def
    by (auto simp add: getProp_JObj simp del: own.simps)
qed

lemma handleStats_returns:
  assumes "list_all isEventShaped (readEvents rt (WEBHOOKS env) 1000)"
  shows "handleStats rt env \<noteq> None"
proof -
  have w: "\<forall>e \<in> set (readEvents rt (WEBHOOKS env) 1000). isEventShaped e"
    using assms by (simp add: list_all_iff)
  show ?thesis
    unfolding handleStats_def Let_def
  proof (intro bind_not_None)
    show "Array_filter (eventIs ''com.jamf.setupmanager.started'')
            (readEvents rt (WEBHOOKS env) 1000) \<noteq> None"
      using w by (intro Array_filter_total) (simp add: eventIs_total)
    show "Array_filter (eventIs ''com.jamf.setupmanager.finished'')
            (readEvents rt (WEBHOOKS env) 1000) \<noteq> None"
      using w by (intro Array_filter_total) (simp add: eventIs_total)
    show "Array_map (\<lambda>e. do { p \<leftarrow> getProp e ''payload''; getProp p ''serialNumber'' })
            (readEvents rt (WEBHOOKS env) 1000) \<noteq> None"
      using w by (intro Array_map_total) (simp add: serialNumber_total)
    show "Array_map (\<lambda>e. getProp e ''timestamp'') (readEvents rt (WEBHOOKS env) 1000) \<noteq> None"
      using w by (intro Array_map_total) (simp add: timestamp_total)
  next
    fix startedEvents finishedEvents serials timestamps
    assume "Array_filter (eventIs ''com.jamf.setupmanager.finished'')
            (readEvents rt (WEBHOOKS env) 1000) = Some finishedEvents"
    then have fe: "finishedEvents = filter isFinishedEntry (readEvents rt (WEBHOOKS env) 1000)"
      by (rule Array_filter_SomeD) (simp add: isFinishedEntry_def eventIs_SomeD)
    with w have f: "\<forall>e \<in> set finishedEvents. isEventShaped e \<and> isFinishedEntry e"
      by simp
    have d: "Array_map durationOf finishedEvents \<noteq> None"
      using f by (intro Array_map_total) (simp add: durationOf_total)
    have s: "Array_filter isSuccessfulEnrollment finishedEvents \<noteq> None"
      using f by (intro Array_filter_total) (simp add: isSuccessfulEnrollment_total)
    from d s show "(if 0 < length finishedEvents
          then Array_map durationOf finishedEvents \<bind>
               (\<lambda>durations.
                   Array_filter isSuccessfulEnrollment finishedEvents \<bind>
                   (\<lambda>successfulEnrollments.
                       Some (json
                              (\<lparr>total_stat = length (readEvents rt (WEBHOOKS env) 1000),
                                  started_stat = length startedEvents,
                                  finished_stat = length finishedEvents,
                                  avgDuration = Finite 0, successRate = Finite 0,
                                  devices = Set_size serials,
                                  lastEventTime =
                                    if 0 < length (readEvents rt (WEBHOOKS env) 1000)
                                    then Some (foldl Math_max NegInfinity
                                                 (map (ToNumber rt) timestamps))
                                    else None\<rparr>
                               \<lparr>avgDuration :=
                                    Math_round
                                     (num_div
                                       (ToNumber rt
                                         (foldl (js_plus rt) (JNum (Finite 0)) durations))
                                       (Finite (real (length durations)))),
                                  successRate :=
                                    Math_round
                                     (num_mul
                                       (num_div
                                         (Finite (real (length successfulEnrollments)))
                                         (Finite (real (length finishedEvents))))
                                       (Finite 100))\<rparr>)
                              200)))
          else Some (json
                      \<lparr>total_stat = length (readEvents rt (WEBHOOKS env) 1000),
                         started_stat = length startedEvents,
                         finished_stat = length finishedEvents, avgDuration = Finite 0,
                         successRate = Finite 0, devices = Set_size serials,
                         lastEventTime =
                           if 0 < length (readEvents rt (WEBHOOKS env) 1000)
                           then Some (foldl Math_max NegInfinity
                                        (map (ToNumber rt) timestamps))
                           else None\<rparr>
                      200)) \<noteq> None"
      by auto
  qed
qed

lemma finishedEvents_eq:
  assumes "Array_filter (eventIs ''com.jamf.setupmanager.finished'') window = Some finishedEvents"
  shows "finishedEvents = filter isFinishedEntry window"
  using assms by (rule Array_filter_SomeD) (simp add: isFinishedEntry_def eventIs_SomeD)

lemma successfulEnrollments_eq:
  assumes "Array_filter isSuccessfulEnrollment finishedEvents = Some good"
  shows "good = filter allActionsFinished finishedEvents"
  using assms by (rule Array_filter_SomeD) (rule isSuccessfulEnrollment_SomeD)

lemma exampleEvent_shaped:
  "isEventShaped exampleEvent1" "isEventShaped exampleEvent2"
  "isEventShaped exampleEvent3" "isEventShaped exampleEvent4"
  by (simp_all add: isEventShaped_def exampleEvent1_def exampleEvent2_def exampleEvent3_def
      exampleEvent4_def)

lemma exampleEvent_finished:
  "isFinishedEntry exampleEvent1" "isFinishedEntry exampleEvent2"
  "\<not> isFinishedEntry exampleEvent3" "isFinishedEntry exampleEvent4"
  by (simp_all add: isFinishedEntry_def exampleEvent1_def exampleEvent2_def exampleEvent3_def
      exampleEvent4_def)


lemma exampleEnv_window:
  "readEvents exampleRuntime (WEBHOOKS exampleEnv) 1000 =
     [exampleEvent1, exampleEvent2, exampleEvent4, exampleEvent3]"
  by (simp add: exampleEnv_def readEvents_exampleStore)




text \<open>
  C10. A finished event of the window whose \<^verbatim>\<open>enrollmentActions\<close> is absent, null or
  the empty array passes the test of the successful enrollments; it is among them as
  often as it is in the window; and \<open>successRate\<close> is computed from the number of the
  successful enrollments as the numerator, over the number of finished events.
\<close>

theorem no_actions_is_success:
  assumes "handleStats rt env = Some response"
    and "e \<in> set (readEvents rt (WEBHOOKS env) 1000)"
    and "isFinishedEntry e"
    and "hasNoActions e"
  shows "isSuccessfulEnrollment e = Some True
       \<and> (\<exists>finishedEvents successfulEnrollments.
            Array_filter (eventIs ''com.jamf.setupmanager.finished'')
              (readEvents rt (WEBHOOKS env) 1000) = Some finishedEvents
          \<and> Array_filter isSuccessfulEnrollment finishedEvents = Some successfulEnrollments
          \<and> e \<in> set successfulEnrollments
          \<and> count (mset successfulEnrollments) e
              = count (mset (readEvents rt (WEBHOOKS env) 1000)) e
          \<and> successRate (content response) =
              Math_round (num_mul (num_div (Finite (real (length successfulEnrollments)))
                                     (Finite (real (length finishedEvents))))
                            (Finite 100)))"
proof -
  define window where "window = readEvents rt (WEBHOOKS env) 1000"
  have t: "isSuccessfulEnrollment e = Some True"
    using assms(3,4) by (rule isSuccessfulEnrollment_no_actions)
  then have a: "allActionsFinished e"
    using isSuccessfulEnrollment_SomeD by blast
  from handleStats_SomeD [OF assms(1)] obtain finishedEvents where
    f: "Array_filter (eventIs ''com.jamf.setupmanager.finished'') window = Some finishedEvents"
    and r: "finishedEvents \<noteq> [] \<longrightarrow>
           (\<exists>good. Array_filter isSuccessfulEnrollment finishedEvents = Some good
             \<and> successRate (content response) =
                 Math_round (num_mul (num_div (Finite (real (length good)))
                                        (Finite (real (length finishedEvents))))
                               (Finite 100)))"
    unfolding window_def by blast
  have fe: "finishedEvents = filter isFinishedEntry window"
    using f by (rule finishedEvents_eq)
  have "e \<in> set finishedEvents"
    unfolding fe using assms(2,3) by (simp add: window_def)
  then have "finishedEvents \<noteq> []"
    by auto
  with r obtain good where
    g: "Array_filter isSuccessfulEnrollment finishedEvents = Some good"
    and s: "successRate (content response) =
                 Math_round (num_mul (num_div (Finite (real (length good)))
                                        (Finite (real (length finishedEvents))))
                               (Finite 100))"
    by blast
  have ge: "good = filter allActionsFinished finishedEvents"
    using g by (rule successfulEnrollments_eq)
  have m: "e \<in> set good"
    unfolding ge fe using assms(2,3) a by (simp add: window_def)
  have c: "count (mset good) e = count (mset window) e"
    unfolding ge fe using assms(3) a by simp
  from t f g m c s show ?thesis
    unfolding window_def by blast
qed

theorem no_actions_is_success_witness:
  "\<exists>response. handleStats exampleRuntime exampleEnv = Some response
     \<and> exampleEvent4 \<in> set (readEvents exampleRuntime (WEBHOOKS exampleEnv) 1000)
     \<and> isFinishedEntry exampleEvent4
     \<and> hasNoActions exampleEvent4
     \<and> isSuccessfulEnrollment exampleEvent4 = Some True"
proof -
  have "list_all isEventShaped (readEvents exampleRuntime (WEBHOOKS exampleEnv) 1000)"
    by (simp add: exampleEnv_window exampleEvent_shaped)
  then obtain response where r: "handleStats exampleRuntime exampleEnv = Some response"
    using handleStats_returns by blast
  have a: "exampleEvent4 \<in> set (readEvents exampleRuntime (WEBHOOKS exampleEnv) 1000)"
    by (simp add: exampleEnv_window)
  have b: "isFinishedEntry exampleEvent4"
    by (rule exampleEvent_finished)
  have c: "hasNoActions exampleEvent4"
    by (simp add: hasNoActions_def exampleEvent4_def)
  from no_actions_is_success [OF r a b c] r a b c show ?thesis
    by blast
qed

section \<open>The limits of the history requests\<close>

lemma of_char_digit_char: "n < 10 \<Longrightarrow> (of_char (digit_char n) :: nat) = 48 + n"
  by simp

lemma digit_char_props:
  assumes "isDigitChar c"
  shows "isDigit c" "\<not> isWhiteSpace c" "c \<noteq> CHR ''-''" "c \<noteq> CHR ''+''"
proof -
  from assms obtain n where n: "n < 10" "c = digit_char n"
    by (auto simp: isDigitChar_def)
  then have o: "(of_char c :: nat) = 48 + n"
    by simp
  show "isDigit c" using o n by (simp add: isDigit_def)
  show "\<not> isWhiteSpace c" using o n by (simp add: isWhiteSpace_def)
  show "c \<noteq> CHR ''-''" using o by auto
  show "c \<noteq> CHR ''+''" using o by auto
qed

lemma digitValue_digit_char: "n < 10 \<Longrightarrow> digitValue (digit_char n) = n"
  by (simp add: digitValue_def)

lemma show_nat_digits: "\<forall>c \<in> set (show_nat k). isDigitChar c"
proof (induction k rule: show_nat.induct)
  case (1 n)
  show ?case
  proof (cases "n < 10")
    case True
    then show ?thesis
      by (subst show_nat.simps) (auto simp: isDigitChar_def)
  next
    case False
    have "n mod 10 < 10" by simp
    then have "isDigitChar (digit_char (n mod 10))"
      unfolding isDigitChar_def by blast
    with 1 False show ?thesis
      by (subst show_nat.simps) (auto simp del: digit_char.simps)
  qed
qed

lemma show_nat_nonempty: "show_nat k \<noteq> []"
  by (subst show_nat.simps) simp

lemma show_nat_value: "foldl (\<lambda>a c. 10 * a + digitValue c) 0 (show_nat k) = k"
proof (induction k rule: show_nat.induct)
  case (1 n)
  show ?case
  proof (cases "n < 10")
    case True
    then show ?thesis
      by (subst show_nat.simps) (simp add: digitValue_digit_char del: digit_char.simps)
  next
    case False
    have "digitValue (digit_char (n mod 10)) = n mod 10"
      by (rule digitValue_digit_char) simp
    with 1 False show ?thesis
      by (subst show_nat.simps) (simp del: digit_char.simps)
  qed
qed

lemma parseInt_show_nat: "parseInt (show_nat k) = Some (int k)"
proof -
  obtain c cs where s: "show_nat k = c # cs"
    using show_nat_nonempty [of k] by (cases "show_nat k") auto
  have d: "\<forall>x \<in> set (c # cs). isDigitChar x"
    using show_nat_digits [of k] unfolding s .
  then have c: "\<not> isWhiteSpace c" "c \<noteq> CHR ''-''" "c \<noteq> CHR ''+''"
    using digit_char_props by auto
  have t: "takeWhile isDigit (c # cs) = c # cs"
    using d digit_char_props(1) by (simp add: takeWhile_eq_all_conv)
  have v: "foldl (\<lambda>a c. 10 * a + digitValue c) 0 (c # cs) = k"
    using show_nat_value [of k] unfolding s .
  show ?thesis
    unfolding parseInt_def s
    by (simp add: Let_def c t v del: foldl_Cons takeWhile.simps takeWhile_eq_all_conv)
qed

lemma parseInt_minus_show_nat: "parseInt (CHR ''-'' # show_nat k) = Some (- int k)"
proof -
  have w: "\<not> isWhiteSpace CHR ''-''"
    by (simp add: isWhiteSpace_def)
  have t: "takeWhile isDigit (show_nat k) = show_nat k"
    using show_nat_digits [of k] digit_char_props(1) by (simp add: takeWhile_eq_all_conv)
  show ?thesis
    unfolding parseInt_def
    by (simp add: Let_def w t show_nat_value show_nat_nonempty del: takeWhile_eq_all_conv)
qed

lemma eventsLimit_range: "1 \<le> eventsLimit p \<and> eventsLimit p \<le> 1000"
  by (simp add: eventsLimit_def)

lemma eventsLimit_parsed:
  "parseInt (orString p ''100'') = Some i \<Longrightarrow> i \<noteq> 0 \<Longrightarrow> eventsLimit p = min (max i 1) 1000"
  by (simp add: eventsLimit_def orInt_def)

lemma requestHistoryLimit_Finite:
  "requestHistoryLimit (JNum (Finite x)) = Finite (min (max x 1) 200)"
  by (simp add: requestHistoryLimit_def MAX_HISTORY_def)

lemma requestHistoryLimit_range:
  "n \<noteq> NaN \<Longrightarrow> \<exists>r. requestHistoryLimit (JNum n) = Finite r \<and> 1 \<le> r \<and> r \<le> 200"
  by (cases n) (simp_all add: requestHistoryLimit_def MAX_HISTORY_def)

lemma requestHistoryLimit_absent:
  "typeof v \<noteq> ''number'' \<Longrightarrow> requestHistoryLimit v = Finite 200"
  by (simp add: requestHistoryLimit_def MAX_HISTORY_def)

lemma eventsLimit_show_nat:
  assumes "0 < k"
  shows "eventsLimit (Some (show_nat k)) = min (int k) 1000"
proof -
  have "orString (Some (show_nat k)) ''100'' = show_nat k"
    by (simp add: orString_def show_nat_nonempty)
  then have "parseInt (orString (Some (show_nat k)) ''100'') = Some (int k)"
    by (simp add: parseInt_show_nat)
  from eventsLimit_parsed [OF this] assms show ?thesis
    by simp
qed

lemma eventsLimit_minus_show_nat:
  assumes "0 < k"
  shows "eventsLimit (Some (CHR ''-'' # show_nat k)) = 1"
proof -
  have "orString (Some (CHR ''-'' # show_nat k)) ''100'' = CHR ''-'' # show_nat k"
    by (simp add: orString_def)
  then have "parseInt (orString (Some (CHR ''-'' # show_nat k)) ''100'') = Some (- int k)"
    by (simp add: parseInt_minus_show_nat)
  from eventsLimit_parsed [OF this] assms show ?thesis
    by simp
qed

lemmas example_limit_simps =
  eventsLimit_def orInt_def orString_def parseInt_def isWhiteSpace_def isDigit_def digitValue_def

text \<open>
  What holds of the two limits. On the WebSocket path a numeric limit other than NaN
  (which JSON text cannot denote) gives a limit in [1, 200], namely \<open>min (max x 1) 200\<close>
  for a finite \<open>x\<close>, and a limit that is absent or not a number gives 200. On the HTTP
  path the limit is always in [1, 1000]; an absent parameter gives 100, a positive
  decimal integer \<open>k\<close> gives \<open>min k 1000\<close>, a negative decimal integer gives 1. So a
  negative limit gives 1 on both paths, 0 gives 1 on the WebSocket path, and 5000 gives
  200 on the WebSocket path and 1000 on the HTTP path.
\<close>

theorem history_limits:
  "(\<forall>n. n \<noteq> NaN \<longrightarrow> (\<exists>r. requestHistoryLimit (JNum n) = Finite r \<and> 1 \<le> r \<and> r \<le> 200))
   \<and> (\<forall>x. requestHistoryLimit (JNum (Finite x)) = Finite (min (max x 1) 200))
   \<and> (\<forall>v. typeof v \<noteq> ''number'' \<longrightarrow> requestHistoryLimit v = Finite 200)
   \<and> (\<forall>x. x \<le> 0 \<longrightarrow> requestHistoryLimit (JNum (Finite x)) = Finite 1)
   \<and> requestHistoryLimit (JNum (Finite 5000)) = Finite 200
   \<and> (\<forall>p. 1 \<le> eventsLimit p \<and> eventsLimit p \<le> 1000)
   \<and> eventsLimit None = 100
   \<and> (\<forall>k. 0 < k \<longrightarrow> eventsLimit (Some (show_nat k)) = min (int k) 1000)
   \<and> (\<forall>k. 0 < k \<longrightarrow> eventsLimit (Some (CHR ''-'' # show_nat k)) = 1)
   \<and> eventsLimit (Some ''5000'') = 1000"
proof (intro conjI allI impI)
  show "\<exists>r. requestHistoryLimit (JNum n) = Finite r \<and> 1 \<le> r \<and> r \<le> 200" if "n \<noteq> NaN" for n
    using that by (rule requestHistoryLimit_range)
  show "requestHistoryLimit (JNum (Finite x)) = Finite (min (max x 1) 200)" for x
    by (rule requestHistoryLimit_Finite)
  show "requestHistoryLimit v = Finite 200" if "typeof v \<noteq> ''number''" for v
    using that by (rule requestHistoryLimit_absent)
  show "requestHistoryLimit (JNum (Finite x)) = Finite 1" if "x \<le> 0" for x
    using that by (simp add: requestHistoryLimit_Finite)
  show "requestHistoryLimit (JNum (Finite 5000)) = Finite 200"
    by (simp add: requestHistoryLimit_Finite)
  show "1 \<le> eventsLimit p" "eventsLimit p \<le> 1000" for p
    using eventsLimit_range [of p] by simp_all
  show "eventsLimit None = 100"
    by (simp add: example_limit_simps)
  show "eventsLimit (Some (show_nat k)) = min (int k) 1000" if "0 < k" for k
    using that by (rule eventsLimit_show_nat)
  show "eventsLimit (Some (CHR ''-'' # show_nat k)) = 1" if "0 < k" for k
    using that by (rule eventsLimit_minus_show_nat)
  show "eventsLimit (Some ''5000'') = 1000"
    by (simp add: example_limit_simps)
qed

theorem history_limits_witness:
  "Infinity \<noteq> NaN \<and> requestHistoryLimit (JNum Infinity) = Finite 200
   \<and> typeof JUndefined \<noteq> ''number'' \<and> requestHistoryLimit JUndefined = Finite 200
   \<and> (- 3 :: real) \<le> 0 \<and> requestHistoryLimit (JNum (Finite (- 3))) = Finite 1
   \<and> (0::nat) < 7 \<and> eventsLimit (Some (CHR ''-'' # show_nat 7)) = 1
   \<and> eventsLimit (Some (show_nat 5000)) = 1000"
proof -
  note h = history_limits
  have a: "Infinity \<noteq> NaN"
    by simp
  with h obtain r where "requestHistoryLimit (JNum Infinity) = Finite r" "1 \<le> r" "r \<le> 200"
    by blast
  moreover have "requestHistoryLimit (JNum Infinity) = Finite 200"
    by (simp add: requestHistoryLimit_def MAX_HISTORY_def)
  moreover have b: "typeof JUndefined \<noteq> ''number''"
    by simp
  with h have "requestHistoryLimit JUndefined = Finite 200"
    by blast
  moreover have c: "(- 3 :: real) \<le> 0"
    by simp
  with h have "requestHistoryLimit (JNum (Finite (- 3))) = Finite 1"
    by blast
  moreover have d: "(0::nat) < 7" "(0::nat) < 5000"
    by simp_all
  with h have "eventsLimit (Some (CHR ''-'' # show_nat 7)) = 1"
    "eventsLimit (Some (show_nat 5000)) = min (int 5000) 1000"
    by blast+
  ultimately show ?thesis
    using a b c d by simp
qed

text \<open>
  C2 fails on the HTTP path at 0, and there only. \<^verbatim>\<open>parseInt("0", 10) || 100\<close> is 100,
  since 0 is falsy: the default replaces the parsed 0 before \<^verbatim>\<open>Math.max\<close> can raise it
  to 1. So \<^verbatim>\<open>?limit=0\<close> gives the limit 100, between \<^verbatim>\<open>?limit=-1\<close> and \<^verbatim>\<open>?limit=1\<close>,
  which both give 1, and unlike the WebSocket path, where 0 gives 1.
\<close>

theorem eventsLimit_zero:
  "eventsLimit (Some ''0'') = 100
   \<and> eventsLimit (Some ''0'') \<noteq> 1
   \<and> eventsLimit (Some ''-1'') = 1
   \<and> eventsLimit (Some ''1'') = 1
   \<and> requestHistoryLimit (JNum (Finite 0)) = Finite 1"
  by (simp add: example_limit_simps requestHistoryLimit_Finite)


section \<open>The webhook endpoint\<close>

text \<open>
  What the two guards of \<^verbatim>\<open>handleWebhook\<close> do: a declared \<^verbatim>\<open>Content-Length\<close> above
  8192 is answered with 413, and otherwise a \<^verbatim>\<open>Content-Type\<close> that is missing or does
  not contain \<^verbatim>\<open>application/json\<close> with 415; the body is not parsed, and the store and
  the room are what they were.
\<close>

lemma handleWebhook_declared_too_large:
  assumes "parseInt (orString (headers_get (headers request) ''Content-Length'') ''0'') = Some n"
    and "n > 8192"
  shows "handleWebhook rt request env =
           (json (JObj [(''error'', JStr ''Payload too large'')]) 413, env)"
  using assms by (simp add: handleWebhook_def MAX_WEBHOOK_PAYLOAD_SIZE_def)

lemma handleWebhook_wrong_content_type:
  assumes "\<forall>n. parseInt (orString (headers_get (headers request) ''Content-Length'') ''0'') = Some n
             \<longrightarrow> n \<le> 8192"
    and "\<forall>ct. headers_get (headers request) ''Content-Type'' = Some ct
             \<longrightarrow> \<not> includes_str ct ''application/json''"
  shows "handleWebhook rt request env =
           (json (JObj [(''error'', JStr ''Content-Type must be application/json'')]) 415, env)"
proof -
  have a: "\<not> (case parseInt (orString (headers_get (headers request) ''Content-Length'') ''0'') of
               None \<Rightarrow> False | Some n \<Rightarrow> n > MAX_WEBHOOK_PAYLOAD_SIZE)"
    using assms(1) by (auto simp: MAX_WEBHOOK_PAYLOAD_SIZE_def split: option.splits)
  have b: "(case headers_get (headers request) ''Content-Type'' of
              None \<Rightarrow> True | Some ct \<Rightarrow> ct = [] \<or> \<not> includes_str ct ''application/json'')"
    using assms(2) by (auto split: option.splits)
  show ?thesis
    unfolding handleWebhook_def Let_def using a b by simp
qed

lemma headers_get_oversizedRequest:
  "headers_get (headers oversizedRequest) ''Content-Length'' = None"
  "headers_get (headers oversizedRequest) ''Content-Type'' = Some ''application/json''"
  "headers_get (headers oversizedRequest) ''Authorization'' = None"
  by (simp_all add: headers_get_def sameHeaderName_def lowerCode_def oversizedRequest_def)

text \<open>The header names match whatever their case.\<close>

lemma headers_get_lower_case:
  "headers_get [(''content-length'', ''9000'')] ''Content-Length'' = Some ''9000''"
  by (simp add: headers_get_def sameHeaderName_def lowerCode_def)

lemma body_oversizedRequest: "body oversizedRequest = oversizedBody"
  by (simp add: oversizedRequest_def)

lemma oversizedBody_length: "length oversizedBody = 8471"
  by (simp add: oversizedBody_def)

text \<open>
  C3 fails on a request that declares no \<^verbatim>\<open>Content-Length\<close> (a chunked upload): the guard
  reads the header, not the body. Here a body of 8471 bytes with
  \<^verbatim>\<open>Content-Type: application/json\<close> is parsed, validated, written to the store and
  broadcast, and answered with 200.
\<close>

theorem handleWebhook_oversized_body_accepted:
  "8192 < length (body oversizedRequest)
   \<and> headers_get (headers oversizedRequest) ''Content-Length'' = None
   \<and> statusCode (fst (handleWebhook exampleRuntime oversizedRequest emptyEnv)) = 200
   \<and> map fst (WEBHOOKS (snd (handleWebhook exampleRuntime oversizedRequest emptyEnv)))
       = [''com.jamf.setupmanager.started:TEST001:1700000000000'']
   \<and> map fst (sendLog (DASHBOARD_ROOM (snd (handleWebhook exampleRuntime oversizedRequest emptyEnv))))
       = [1, 2, 3]"
proof -
  have v: "validateWebhookPayload exampleDateIsNaN (JObj startedPayload) = Some ok"
    by (simp add: example_validation_simps)
  have p: "getProp (JObj startedPayload) ''event'' = Some (JStr ''com.jamf.setupmanager.started'')"
      "getProp (JObj startedPayload) ''serialNumber'' = Some (JStr ''TEST001'')"
    by (simp_all add: getProp_def startedPayload_def)
  have t: "show_nat 1700000000000 = ''1700000000000''"
    by (simp add: show_nat.simps char_of_def bit_0)
  have c: "parseInt ''0'' = Some 0"
    by (simp add: example_limit_simps)
  have i: "includes_str ''application/json'' ''application/json''"
    by (simp add: startsWith_def)
  have h: "handleWebhook exampleRuntime oversizedRequest emptyEnv =
      (json (JObj [(''success'', JBool True),
                   (''eventId'', JStr ''com.jamf.setupmanager.started:TEST001:1700000000000'')]) 200,
       emptyEnv\<lparr>WEBHOOKS :=
           kv_put ''com.jamf.setupmanager.started:TEST001:1700000000000''
             (exampleStringify (JObj [(''payload'', JObj startedPayload),
                 (''timestamp'', JNum (Finite 1700000000000)),
                 (''eventId'', JStr ''com.jamf.setupmanager.started:TEST001:1700000000000'')])) [],
         DASHBOARD_ROOM := snd (broadcast exampleRuntime
            (exampleStringify (JObj [(''type'', JStr ''setup-manager-event''),
               (''data'', JObj [(''payload'', JObj startedPayload),
                 (''timestamp'', JNum (Finite 1700000000000)),
                 (''eventId'', JStr ''com.jamf.setupmanager.started:TEST001:1700000000000'')])]))
            \<lparr>webSockets = [1, 2, 3], sendLog = []\<rparr>)\<rparr>)"
    by (simp add: handleWebhook_def headers_get_oversizedRequest body_oversizedRequest
        exampleRuntime_def exampleParse_def emptyEnv_def
        orString_def c i v p t MAX_WEBHOOK_PAYLOAD_SIZE_def exampleToString_def Let_def
        case_prod_unfold del: includes_str.simps)
  have l: "8192 < length (body oversizedRequest)"
    by (simp add: oversizedRequest_def oversizedBody_length)
  have n: "headers_get (headers oversizedRequest) ''Content-Length'' = None"
    by (rule headers_get_oversizedRequest)
  have s: "map fst (sendLog (snd (broadcast exampleRuntime m \<lparr>webSockets = [1, 2, 3], sendLog = []\<rparr>)))
             = [1, 2, 3]" for m
    by (simp add: broadcast_def broadcast_loop_eq Let_def)
  from l n s show ?thesis
    unfolding h by (simp add: json_def kv_put_def)
qed

section \<open>What the webhook stores\<close>

lemma finishedChecks_actions_shape:
  assumes obj: "isObject obj" and fc: "finishedChecks d obj = Some None"
  shows "own obj ''enrollmentActions'' = JUndefined
       \<or> (\<exists>xs. own obj ''enrollmentActions'' = JArr xs \<and> (\<forall>a \<in> set xs. isObject a))"
proof (cases "own obj ''enrollmentActions'' = JUndefined")
  case True
  then show ?thesis by simp
next
  case False
  obtain fo where fo: "isValidTimestamp d (own obj ''finished'') = Some fo"
    using isValidTimestamp_total by blast
  let ?acts = "if own obj ''enrollmentActions'' \<noteq> JUndefined then
                (case own obj ''enrollmentActions'' of
                   JArr xs \<Rightarrow> enrollmentActions_loop xs 0
                 | _ \<Rightarrow> Some (Some (rejected ''enrollmentActions must be an array'')))
              else Some None"
  have req: "requiredFinishedFields_loop obj REQUIRED_FINISHED_FIELDS = Some None"
    using requiredFinishedFields_loop_returns [OF obj, of REQUIRED_FINISHED_FIELDS]
  proof (cases rule: returns_rejectionE)
    case (2 m)
    with fc show ?thesis by (simp add: finishedChecks_def)
  qed
  have foT: "fo" using fc by (cases fo) (simp_all add: finishedChecks_def req getProp_object [OF obj] fo)
  have acts: "?acts = Some None"
    using enrollmentActions_part_returns [of "own obj ''enrollmentActions''"]
  proof (cases rule: returns_rejectionE)
    case (2 m)
    with fc foT show ?thesis by (simp add: finishedChecks_def req getProp_object [OF obj] fo)
  qed
  with False obtain xs where xs: "own obj ''enrollmentActions'' = JArr xs"
    by (cases "own obj ''enrollmentActions''") simp_all
  with acts have l: "enrollmentActions_loop xs 0 = Some None"
    by simp
  have "isObject a" if "a \<in> set xs" for a
  proof -
    from l that have "isValidEnrollmentAction a = Some True"
      by (rule enrollmentActions_loop_NoneD)
    then show ?thesis
      by (auto simp: isValidEnrollmentAction_def isObject_def split: if_splits)
  qed
  with xs show ?thesis
    by blast
qed

lemma valid_payload_JObj:
  assumes "validateWebhookPayload d p = Some ok"
  obtains kvs where "p = JObj kvs"
proof -
  have v: "valid ok" "\<And>m. \<not> valid (rejected m)"
    by simp_all
  have obj: "isObject p"
    using validate_not_object [of p d] assms v by (metis option.inject)
  have "p \<noteq> JArr xs" for xs
  proof
    assume "p = JArr xs"
    then have "\<exists>m. validateWebhookPayload d p = Some (rejected m)"
      by (simp add: validateWebhookPayload_def hasDangerousKeys_def getProp_def VALID_EVENTS_def)
    with assms v show False
      by (metis option.inject)
  qed
  with obj that show ?thesis
    by (auto simp add: isObject_cases)
qed


text \<open>
  The events that the webhook stores have the shape on which the statistics return, and
  carry the clock reading, a whole number of milliseconds, as their timestamp.
\<close>

lemma stored_event_shaped:
  assumes "validateWebhookPayload d p = Some ok"
  shows "isEventShaped (JObj [(''payload'', p), (''timestamp'', JNum (Finite (of_int n))),
                              (''eventId'', JStr i)])"
    and "hasIntegerTimestamp (JObj [(''payload'', p), (''timestamp'', JNum (Finite (of_int n))),
                              (''eventId'', JStr i)])"
proof -
  from assms obtain kvs where p: "p = JObj kvs"
    by (rule valid_payload_JObj)
  have obj: "isObject p"
    unfolding p by (simp add: isObject_def)
  have v: "\<And>m. ok \<noteq> rejected m"
    by (metis valid_ok valid_rejected)
  have shape: "own p ''enrollmentActions'' = JUndefined
       \<or> (\<exists>xs. own p ''enrollmentActions'' = JArr xs \<and> (\<forall>a \<in> set xs. isObject a))"
    if "own p ''event'' = JStr ''com.jamf.setupmanager.finished''"
  proof -
    from obj have "finishedChecks d p = Some None"
    proof (cases rule: validate_object [where d = d])
      case (1 m)
      with assms v [of m] show ?thesis by (metis option.inject)
    next
      case 2
      with that show ?thesis by simp
    qed
    with obj show ?thesis
      by (rule finishedChecks_actions_shape)
  qed
  have nn: "\<forall>a \<in> set xs. a \<noteq> JUndefined \<and> a \<noteq> JNull" if "\<forall>a \<in> set xs. isObject a" for xs
    using that by (auto simp add: isObject_def)
  have pe: "own (JObj [(''payload'', p), (''timestamp'', JNum (Finite (of_int n))),
                       (''eventId'', JStr i)]) ''payload'' = JObj kvs"
    by (simp add: p)
  have "case own (JObj kvs) ''enrollmentActions'' of
             JArr actions \<Rightarrow> list_all (\<lambda>a. a \<noteq> JUndefined \<and> a \<noteq> JNull) actions
           | v \<Rightarrow> \<not> truthy v"
    if "own (JObj kvs) ''event'' = JStr ''com.jamf.setupmanager.finished''"
  proof -
    from shape that consider "own (JObj kvs) ''enrollmentActions'' = JUndefined"
      | xs where "own (JObj kvs) ''enrollmentActions'' = JArr xs" "\<forall>a \<in> set xs. isObject a"
      unfolding p by blast
    then show ?thesis
    proof cases
      case 1
      then show ?thesis by (simp only: jsval.case truthy.simps not_False_eq_True)
    next
      case 2
      with nn [of xs] show ?thesis
        by (simp only: jsval.case list_all_iff)
    qed
  qed
  then show "isEventShaped (JObj [(''payload'', p), (''timestamp'', JNum (Finite (of_int n))),
                              (''eventId'', JStr i)])"
    unfolding isEventShaped_def pe by (simp only: jsval.case) blast
  show "hasIntegerTimestamp (JObj [(''payload'', p), (''timestamp'', JNum (Finite (of_int n))),
                              (''eventId'', JStr i)])"
    by (simp add: hasIntegerTimestamp_def)
qed

lemma handleWebhook_stores_event:
  assumes "statusCode (fst (handleWebhook rt request env)) = 200"
  shows "\<exists>eventId storedEvent.
           WEBHOOKS (snd (handleWebhook rt request env)) =
             kv_put eventId (JSON_stringify rt storedEvent) (WEBHOOKS env)
         \<and> isEventShaped storedEvent \<and> hasIntegerTimestamp storedEvent"
proof -
  let ?tooLarge = "case parseInt (orString (headers_get (headers request) ''Content-Length'') ''0'') of
                     None \<Rightarrow> False | Some n \<Rightarrow> n > MAX_WEBHOOK_PAYLOAD_SIZE"
  let ?wrongType = "case headers_get (headers request) ''Content-Type'' of
                      None \<Rightarrow> True
                    | Some ct \<Rightarrow> ct = [] \<or> \<not> includes_str ct ''application/json''"
  let ?token = "case headers_get (headers request) ''Authorization'' of
                  None \<Rightarrow> None
                | Some h \<Rightarrow> if startsWith h ''Bearer '' then Some (drop 7 h) else None"
  let ?unauthorized = "case WEBHOOK_SECRET env of
                         None \<Rightarrow> False
                       | Some secret \<Rightarrow> secret \<noteq> [] \<and>
                           (case ?token of None \<Rightarrow> True
                             | Some t \<Rightarrow> t = [] \<or> \<not> timingSafeEqual rt t secret)"
  have s: "statusCode (fst (json x c, e)) = c" for x :: jsval and c and e :: Env
    by (simp add: json_def)
  have a: "\<not> ?tooLarge"
  proof
    assume ?tooLarge
    then have "handleWebhook rt request env =
                 (json (JObj [(''error'', JStr ''Payload too large'')]) 413, env)"
      unfolding handleWebhook_def Let_def by simp
    with assms show False
      by (simp add: json_def)
  qed
  have b: "\<not> ?wrongType"
  proof
    assume ?wrongType
    with a have "handleWebhook rt request env =
        (json (JObj [(''error'', JStr ''Content-Type must be application/json'')]) 415, env)"
      unfolding handleWebhook_def Let_def by simp
    with assms show False
      by (simp add: json_def)
  qed
  have c: "\<not> ?unauthorized"
  proof
    assume ?unauthorized
    with a b have "handleWebhook rt request env =
        (json (JObj [(''error'', JStr ''Unauthorized'')]) 401, env)"
      unfolding handleWebhook_def Let_def by simp
    with assms show False
      by (simp add: json_def)
  qed
  have rest: "handleWebhook rt request env =
      (case JSON_parse rt (body request) of
        None \<Rightarrow> (json (JObj [(''error'', JStr ''Invalid JSON payload'')]) 400, env)
      | Some webhookPayload \<Rightarrow>
      (case validateWebhookPayload (dateIsNaN rt) webhookPayload of
        None \<Rightarrow> (json JUndefined 500, env)
      | Some validation \<Rightarrow>
        if \<not> valid validation
        then (json (JObj [(''error'', JStr ''Invalid webhook payload'')]) 400, env)
        else
        (case (getProp webhookPayload ''event'', getProp webhookPayload ''serialNumber'') of
           (Some ev, Some sn) \<Rightarrow>
             let ts = JNum (Finite (of_int (Date_now rt)));
                 eventId = toString rt ev @ '':'' @ toString rt sn @ '':'' @ toString rt ts;
                 storedEvent = JObj [(''payload'', webhookPayload), (''timestamp'', ts),
                                     (''eventId'', JStr eventId)];
                 kv = kv_put eventId (JSON_stringify rt storedEvent) (WEBHOOKS env);
                 message = JSON_stringify rt
                             (JObj [(''type'', JStr ''setup-manager-event''), (''data'', storedEvent)]);
                 (result, room) = broadcast rt message (DASHBOARD_ROOM env)
             in (json (JObj [(''success'', JBool True), (''eventId'', JStr eventId)]) 200,
                 env\<lparr>WEBHOOKS := kv, DASHBOARD_ROOM := room\<rparr>)
         | _ \<Rightarrow> (json JUndefined 500, env))))"
    using a b c unfolding handleWebhook_def by (simp add: Let_def)
  obtain p where p: "JSON_parse rt (body request) = Some p"
    using assms unfolding rest by (cases "JSON_parse rt (body request)") (simp_all add: json_def)
  from validate_total [of "dateIsNaN rt" p]
  have v: "validateWebhookPayload (dateIsNaN rt) p = Some ok"
  proof
    assume "\<exists>m. validateWebhookPayload (dateIsNaN rt) p = Some (rejected m)"
    then show ?thesis
      using assms by (auto simp add: rest p json_def)
  qed
  obtain ev sn where e: "getProp p ''event'' = Some ev" "getProp p ''serialNumber'' = Some sn"
    using assms
    by (cases "getProp p ''event''"; cases "getProp p ''serialNumber''")
       (simp_all add: rest p v json_def)
  define eventId where
    "eventId = toString rt ev @ '':'' @ toString rt sn @ '':'' @
               toString rt (JNum (Finite (of_int (Date_now rt))))"
  define storedEvent where
    "storedEvent = JObj [(''payload'', p), (''timestamp'', JNum (Finite (of_int (Date_now rt)))),
                         (''eventId'', JStr eventId)]"
  have "WEBHOOKS (snd (handleWebhook rt request env)) =
          kv_put eventId (JSON_stringify rt storedEvent) (WEBHOOKS env)"
    unfolding storedEvent_def eventId_def
    by (simp add: rest p v e Let_def case_prod_unfold)
  moreover have "isEventShaped storedEvent" "hasIntegerTimestamp storedEvent"
    unfolding storedEvent_def using v by (rule stored_event_shaped)+
  ultimately show ?thesis
    by blast
qed

end
